theory Spec2Isabelle
  imports Complex_Main "HOL-Library.Multiset"
begin

section \<open>Python values and errors\<close>

text \<open>
  The exceptions that the modelled code can raise. A function that can raise returns a
  sum, \<open>Inl\<close> carrying the exception.
\<close>

datatype pyerror = IndexError | KeyError | ValueError | AssertionError

definition ebind :: "'e + 'a \<Rightarrow> ('a \<Rightarrow> 'e + 'b) \<Rightarrow> 'e + 'b" where
  "ebind m f = (case m of Inl e \<Rightarrow> Inl e | Inr x \<Rightarrow> f x)"

definition getitem :: "'a list \<Rightarrow> nat \<Rightarrow> pyerror + 'a" where
  "getitem xs i = (if i < length xs then Inr (xs ! i) else Inl IndexError)"

section \<open>Floating-point values\<close>

text \<open>
  A float is a finite value, one of the two infinities, or NaN. Finite values are exact
  reals: rounding, overflow to infinity and the sign of zero are not part of this model;
  the non-finite values and their propagation through every operation are.
\<close>

datatype pyfloat = Fin real | PInf | NInf | NaN

fun isfinite :: "pyfloat \<Rightarrow> bool" where
  "isfinite (Fin a) = True"
| "isfinite PInf = False"
| "isfinite NInf = False"
| "isfinite NaN = False"

fun fl_neg :: "pyfloat \<Rightarrow> pyfloat" where
  "fl_neg (Fin a) = Fin (- a)"
| "fl_neg PInf = NInf"
| "fl_neg NInf = PInf"
| "fl_neg NaN = NaN"

fun fl_add :: "pyfloat \<Rightarrow> pyfloat \<Rightarrow> pyfloat" where
  "fl_add (Fin a) (Fin b) = Fin (a + b)"
| "fl_add (Fin a) PInf = PInf"
| "fl_add (Fin a) NInf = NInf"
| "fl_add PInf (Fin b) = PInf"
| "fl_add PInf PInf = PInf"
| "fl_add PInf NInf = NaN"
| "fl_add NInf (Fin b) = NInf"
| "fl_add NInf PInf = NaN"
| "fl_add NInf NInf = NInf"
| "fl_add NaN y = NaN"
| "fl_add x NaN = NaN"

definition fl_sub :: "pyfloat \<Rightarrow> pyfloat \<Rightarrow> pyfloat" where
  "fl_sub x y = fl_add x (fl_neg y)"

fun fl_mul :: "pyfloat \<Rightarrow> pyfloat \<Rightarrow> pyfloat" where
  "fl_mul (Fin a) (Fin b) = Fin (a * b)"
| "fl_mul (Fin a) PInf = (if a = 0 then NaN else if 0 < a then PInf else NInf)"
| "fl_mul (Fin a) NInf = (if a = 0 then NaN else if 0 < a then NInf else PInf)"
| "fl_mul PInf (Fin b) = (if b = 0 then NaN else if 0 < b then PInf else NInf)"
| "fl_mul NInf (Fin b) = (if b = 0 then NaN else if 0 < b then NInf else PInf)"
| "fl_mul PInf PInf = PInf"
| "fl_mul PInf NInf = NInf"
| "fl_mul NInf PInf = NInf"
| "fl_mul NInf NInf = PInf"
| "fl_mul NaN y = NaN"
| "fl_mul x NaN = NaN"

text \<open>
  Division of numpy floats does not raise: a finite nonzero value over zero is an
  infinity, zero over zero and infinity over infinity are NaN.
\<close>

fun fl_div :: "pyfloat \<Rightarrow> pyfloat \<Rightarrow> pyfloat" where
  "fl_div (Fin a) (Fin b) =
     (if b = 0 then (if a = 0 then NaN else if 0 < a then PInf else NInf) else Fin (a / b))"
| "fl_div (Fin a) PInf = Fin 0"
| "fl_div (Fin a) NInf = Fin 0"
| "fl_div PInf (Fin b) = (if 0 \<le> b then PInf else NInf)"
| "fl_div NInf (Fin b) = (if 0 \<le> b then NInf else PInf)"
| "fl_div PInf PInf = NaN"
| "fl_div PInf NInf = NaN"
| "fl_div NInf PInf = NaN"
| "fl_div NInf NInf = NaN"
| "fl_div NaN y = NaN"
| "fl_div x NaN = NaN"

text \<open>Comparisons: every comparison with NaN is false.\<close>

fun fl_le :: "pyfloat \<Rightarrow> pyfloat \<Rightarrow> bool" where
  "fl_le (Fin a) (Fin b) = (a \<le> b)"
| "fl_le (Fin a) PInf = True"
| "fl_le (Fin a) NInf = False"
| "fl_le PInf (Fin b) = False"
| "fl_le PInf PInf = True"
| "fl_le PInf NInf = False"
| "fl_le NInf (Fin b) = True"
| "fl_le NInf PInf = True"
| "fl_le NInf NInf = True"
| "fl_le NaN y = False"
| "fl_le x NaN = False"

fun fl_lt :: "pyfloat \<Rightarrow> pyfloat \<Rightarrow> bool" where
  "fl_lt (Fin a) (Fin b) = (a < b)"
| "fl_lt (Fin a) PInf = True"
| "fl_lt (Fin a) NInf = False"
| "fl_lt PInf (Fin b) = False"
| "fl_lt PInf PInf = False"
| "fl_lt PInf NInf = False"
| "fl_lt NInf (Fin b) = True"
| "fl_lt NInf PInf = True"
| "fl_lt NInf NInf = False"
| "fl_lt NaN y = False"
| "fl_lt x NaN = False"

subsection \<open>numpy's elementwise functions on one value\<close>

fun np_sin :: "pyfloat \<Rightarrow> pyfloat" where
  "np_sin (Fin a) = Fin (sin a)"
| "np_sin PInf = NaN"
| "np_sin NInf = NaN"
| "np_sin NaN = NaN"

fun np_cos :: "pyfloat \<Rightarrow> pyfloat" where
  "np_cos (Fin a) = Fin (cos a)"
| "np_cos PInf = NaN"
| "np_cos NInf = NaN"
| "np_cos NaN = NaN"

definition np_square :: "pyfloat \<Rightarrow> pyfloat" where
  "np_square x = fl_mul x x"

text \<open>\<^verbatim>\<open>np.sqrt\<close> of a negative value is NaN (with a warning, not an exception).\<close>

fun np_sqrt :: "pyfloat \<Rightarrow> pyfloat" where
  "np_sqrt (Fin a) = (if a < 0 then NaN else Fin (sqrt a))"
| "np_sqrt PInf = PInf"
| "np_sqrt NInf = NaN"
| "np_sqrt NaN = NaN"

fun np_arcsin :: "pyfloat \<Rightarrow> pyfloat" where
  "np_arcsin (Fin a) = (if - 1 \<le> a \<and> a \<le> 1 then Fin (arcsin a) else NaN)"
| "np_arcsin PInf = NaN"
| "np_arcsin NInf = NaN"
| "np_arcsin NaN = NaN"

fun np_abs :: "pyfloat \<Rightarrow> pyfloat" where
  "np_abs (Fin a) = Fin \<bar>a\<bar>"
| "np_abs PInf = PInf"
| "np_abs NInf = PInf"
| "np_abs NaN = NaN"

definition np_deg2rad :: "pyfloat \<Rightarrow> pyfloat" where
  "np_deg2rad x = fl_mul x (Fin (pi / 180))"

definition np_rad2deg :: "pyfloat \<Rightarrow> pyfloat" where
  "np_rad2deg x = fl_mul x (Fin (180 / pi))"

text \<open>\<^verbatim>\<open>math.sqrt\<close> raises \<^verbatim>\<open>ValueError\<close> on a negative argument and passes NaN through.\<close>

fun math_sqrt :: "pyfloat \<Rightarrow> pyerror + pyfloat" where
  "math_sqrt (Fin a) = (if a < 0 then Inl ValueError else Inr (Fin (sqrt a)))"
| "math_sqrt PInf = Inr PInf"
| "math_sqrt NInf = Inl ValueError"
| "math_sqrt NaN = Inr NaN"

subsection \<open>numpy's reductions\<close>

text \<open>
  \<^verbatim>\<open>np.mean\<close> is the sum over the number of elements, NaN on an empty array.
  \<^verbatim>\<open>np.std\<close> is the square root of the mean of the squared absolute deviations from
  the mean (the population standard deviation).
\<close>

definition np_sum :: "pyfloat list \<Rightarrow> pyfloat" where
  "np_sum xs = foldl fl_add (Fin 0) xs"

definition np_mean :: "pyfloat list \<Rightarrow> pyfloat" where
  "np_mean xs = fl_div (np_sum xs) (Fin (real (length xs)))"

definition np_std :: "pyfloat list \<Rightarrow> pyfloat" where
  "np_std xs =
     (let m = np_mean xs
      in np_sqrt (np_mean (map (\<lambda>x. np_square (np_abs (fl_sub x m))) xs)))"

text \<open>Sorting by insertion with the float comparison; used on arrays without NaN.\<close>

fun fl_insort :: "pyfloat \<Rightarrow> pyfloat list \<Rightarrow> pyfloat list" where
  "fl_insort x [] = [x]"
| "fl_insort x (y # ys) = (if fl_le x y then x # y # ys else y # fl_insort x ys)"

definition fl_sort :: "pyfloat list \<Rightarrow> pyfloat list" where
  "fl_sort xs = foldr fl_insort xs []"

text \<open>
  \<^verbatim>\<open>np.median\<close>: the middle element of the sorted array, or the mean of the two middle
  elements; NaN on an empty array and on an array that holds a NaN.
\<close>

definition np_median :: "pyfloat list \<Rightarrow> pyfloat" where
  "np_median xs =
     (if xs = [] \<or> NaN \<in> set xs then NaN
      else let s = fl_sort xs; n = length xs
           in if odd n then s ! (n div 2)
              else np_mean [s ! (n div 2 - 1), s ! (n div 2)])"

text \<open>
  \<^verbatim>\<open>np.percentile\<close> with its default linear method. A percentage outside 0 to 100
  raises \<^verbatim>\<open>ValueError\<close>, and an empty array raises \<^verbatim>\<open>IndexError\<close> (the read of
  the last element of the partitioned array). The virtual index is
  \<open>(n - 1) * (q / 100)\<close>; at or above the last index both neighbours are the last
  element, otherwise they are the elements below and above the virtual index. The
  result interpolates between the neighbours with \<open>np_lerp\<close>, which computes from the
  upper neighbour when the weight is 0.5 or more, and is NaN when the array holds a NaN.
\<close>

definition np_lerp :: "pyfloat \<Rightarrow> pyfloat \<Rightarrow> real \<Rightarrow> pyfloat" where
  "np_lerp a b t =
     (let diff_b_a = fl_sub b a
      in if 0.5 \<le> t then fl_sub b (fl_mul diff_b_a (Fin (1 - t)))
         else fl_add a (fl_mul diff_b_a (Fin t)))"

definition np_percentile :: "pyfloat list \<Rightarrow> real \<Rightarrow> pyerror + pyfloat" where
  "np_percentile a q =
     (if \<not> (0 \<le> q \<and> q \<le> 100) then Inl ValueError
      else if a = [] then Inl IndexError
      else let s = fl_sort a; n = length a;
               virtual_index = real (n - 1) * (q / 100);
               above = (real (n - 1) \<le> virtual_index);
               previous_index = (if above then n - 1 else nat \<lfloor>virtual_index\<rfloor>);
               next_index = (if above then n - 1 else nat \<lfloor>virtual_index\<rfloor> + 1);
               gamma = (if above then virtual_index + 1
                        else virtual_index - real (nat \<lfloor>virtual_index\<rfloor>))
           in Inr (if NaN \<in> set a then NaN
                   else np_lerp (s ! previous_index) (s ! next_index) gamma))"

section \<open>Spherical geometry (calcSrd.py)\<close>

text \<open>\<^verbatim>\<open>sphDist\<close>: the haversine formula, on radians.\<close>

definition sphDist :: "pyfloat \<Rightarrow> pyfloat \<Rightarrow> pyfloat \<Rightarrow> pyfloat \<Rightarrow> pyfloat" where
  "sphDist ra1 dec1 ra2 dec2 =
     (let dra = fl_sub ra1 ra2;
          ddec = fl_sub dec1 dec2;
          a = fl_add (np_square (np_sin (fl_div ddec (Fin 2))))
                (fl_mul (fl_mul (np_cos dec1) (np_cos dec2))
                   (np_square (np_sin (fl_div dra (Fin 2)))));
          dist = fl_mul (Fin 2) (np_arcsin (np_sqrt a))
      in dist)"

text \<open>
  \<^verbatim>\<open>matchVisitComputeDistance\<close>: two nested loops over the indices of the two visit
  lists, appending to \<^verbatim>\<open>distances\<close>. The coordinate lists are read at the indices of
  the visit lists, which raises \<^verbatim>\<open>IndexError\<close> when a coordinate list is shorter; the
  four reads happen (in the order of the list display) before the finiteness test.
\<close>

definition matchBody ::
  "'v list \<Rightarrow> pyfloat list \<Rightarrow> pyfloat list \<Rightarrow> 'v list \<Rightarrow> pyfloat list \<Rightarrow> pyfloat list \<Rightarrow>
   nat \<Rightarrow> nat \<Rightarrow> pyfloat list \<Rightarrow> pyerror + pyfloat list" where
  "matchBody visit_obj1 ra_obj1 dec_obj1 visit_obj2 ra_obj2 dec_obj2 i j distances =
     (if visit_obj1 ! i = visit_obj2 ! j
      then ebind (getitem ra_obj1 i) (\<lambda>r1.
           ebind (getitem dec_obj1 i) (\<lambda>d1.
           ebind (getitem ra_obj2 j) (\<lambda>r2.
           ebind (getitem dec_obj2 j) (\<lambda>d2.
             if list_all isfinite [r1, d1, r2, d2]
             then Inr (distances @ [sphDist r1 d1 r2 d2])
             else Inr distances))))
      else Inr distances)"

fun matchInner ::
  "'v list \<Rightarrow> pyfloat list \<Rightarrow> pyfloat list \<Rightarrow> 'v list \<Rightarrow> pyfloat list \<Rightarrow> pyfloat list \<Rightarrow>
   nat \<Rightarrow> nat list \<Rightarrow> pyfloat list \<Rightarrow> pyerror + pyfloat list" where
  "matchInner v1 r1 d1 v2 r2 d2 i [] distances = Inr distances"
| "matchInner v1 r1 d1 v2 r2 d2 i (j # js) distances =
     ebind (matchBody v1 r1 d1 v2 r2 d2 i j distances)
       (\<lambda>distances'. matchInner v1 r1 d1 v2 r2 d2 i js distances')"

fun matchOuter ::
  "'v list \<Rightarrow> pyfloat list \<Rightarrow> pyfloat list \<Rightarrow> 'v list \<Rightarrow> pyfloat list \<Rightarrow> pyfloat list \<Rightarrow>
   nat list \<Rightarrow> pyfloat list \<Rightarrow> pyerror + pyfloat list" where
  "matchOuter v1 r1 d1 v2 r2 d2 [] distances = Inr distances"
| "matchOuter v1 r1 d1 v2 r2 d2 (i # is) distances =
     ebind (matchInner v1 r1 d1 v2 r2 d2 i [0..<length v2] distances)
       (\<lambda>distances'. matchOuter v1 r1 d1 v2 r2 d2 is distances')"

definition matchVisitComputeDistance ::
  "'v list \<Rightarrow> pyfloat list \<Rightarrow> pyfloat list \<Rightarrow> 'v list \<Rightarrow> pyfloat list \<Rightarrow> pyfloat list \<Rightarrow>
   pyerror + pyfloat list" where
  "matchVisitComputeDistance visit_obj1 ra_obj1 dec_obj1 visit_obj2 ra_obj2 dec_obj2 =
     matchOuter visit_obj1 ra_obj1 dec_obj1 visit_obj2 ra_obj2 dec_obj2
       [0..<length visit_obj1] []"

definition arcminToRadians :: "pyfloat \<Rightarrow> pyfloat" where
  "arcminToRadians arcmin = np_deg2rad (fl_div arcmin (Fin 60))"

definition radiansToMilliarcsec :: "pyfloat \<Rightarrow> pyfloat" where
  "radiansToMilliarcsec rad = fl_mul (fl_mul (np_rad2deg rad) (Fin 3600)) (Fin 1000)"

section \<open>Random pair differences (calcSrd.py)\<close>

text \<open>
  The process-wide random source is a stream of raw draws. \<^verbatim>\<open>np.random.shuffle\<close> is
  the Fisher-Yates shuffle: for \<open>i\<close> from \<open>n - 1\<close> down to 1 it draws an index
  \<open>j\<close> between 0 and \<open>i\<close> and exchanges the elements at \<open>i\<close> and \<open>j\<close>. Every
  index in that range is a possible draw.
\<close>

type_synonym rng = "nat \<Rightarrow> nat"

definition random_interval :: "rng \<Rightarrow> nat \<Rightarrow> nat \<times> rng" where
  "random_interval s i = (s 0 mod (i + 1), \<lambda>k. s (k + 1))"

fun shuffle_loop :: "nat list \<Rightarrow> rng \<Rightarrow> 'a list \<Rightarrow> 'a list \<times> rng" where
  "shuffle_loop [] s xs = (xs, s)"
| "shuffle_loop (i # is) s xs =
     (case random_interval s i of
        (j, s') \<Rightarrow> shuffle_loop is s' (xs[i := xs ! j, j := xs ! i]))"

definition np_random_shuffle :: "rng \<Rightarrow> 'a list \<Rightarrow> 'a list \<times> rng" where
  "np_random_shuffle s xs = shuffle_loop (rev [1..<length xs]) s xs"

text \<open>
  \<^verbatim>\<open>getRandomDiff\<close>: shuffle a copy, subtract its second element from its first.
  Both reads raise \<^verbatim>\<open>IndexError\<close> out of range. The result comes with the state of
  the random source after the shuffle.
\<close>

definition getRandomDiff :: "pyfloat list \<Rightarrow> rng \<Rightarrow> (pyerror + pyfloat) \<times> rng" where
  "getRandomDiff array s =
     (case np_random_shuffle s array of
        (copy, s') \<Rightarrow>
          (ebind (getitem copy 0) (\<lambda>x0.
           ebind (getitem copy 1) (\<lambda>x1. Inr (fl_sub x0 x1))), s'))"

definition getRandomDiffRmsInMas :: "pyfloat list \<Rightarrow> rng \<Rightarrow> (pyerror + pyfloat) \<times> rng" where
  "getRandomDiffRmsInMas array s =
     (case getRandomDiff array s of
        (r, s') \<Rightarrow> (ebind r (\<lambda>d. Inr (fl_mul (Fin (1000 / sqrt 2)) d)), s'))"

section \<open>Width estimators and photometric repeatability (calcSrd.py)\<close>

text \<open>
  \<^verbatim>\<open>computeWidths\<close>. \<^verbatim>\<open>scipy.stats.norm.ppf\<close>, the inverse of the standard normal
  distribution function, belongs to an external library; it is the parameter
  \<open>norm_ppf\<close>. \<^verbatim>\<open>np.subtract.reduce\<close> of the two percentiles is the first minus the
  second. The root mean square of line 280 is computed first; an exception of
  \<^verbatim>\<open>np.percentile\<close> on line 281 ends the function.
\<close>

definition computeWidths :: "(real \<Rightarrow> real) \<Rightarrow> pyfloat list \<Rightarrow> pyerror + (pyfloat \<times> pyfloat)" where
  "computeWidths norm_ppf array =
     ebind (math_sqrt (np_mean (map (\<lambda>x. fl_mul x x) array))) (\<lambda>rmsSigma.
     ebind (np_percentile array 75) (\<lambda>p75.
     ebind (np_percentile array 25) (\<lambda>p25.
       let iqrSigma = fl_div (fl_sub p75 p25) (fl_mul (Fin (norm_ppf 0.75)) (Fin 2))
       in Inr (rmsSigma, iqrSigma))))"

text \<open>
  \<^verbatim>\<open>groupView.aggregate(f, field=magKey)\<close> applies \<open>f\<close> to the magnitudes of each
  group in turn; a group view is given here by the list of its groups' magnitude arrays.
  The random source is threaded through the calls, and the first exception ends the
  aggregation.
\<close>

fun aggregate_random ::
  "(pyfloat list \<Rightarrow> rng \<Rightarrow> (pyerror + pyfloat) \<times> rng) \<Rightarrow> pyfloat list list \<Rightarrow> rng \<Rightarrow>
   (pyerror + pyfloat list) \<times> rng" where
  "aggregate_random f [] s = (Inr [], s)"
| "aggregate_random f (g # gs) s =
     (case f g s of
        (Inl e, s') \<Rightarrow> (Inl e, s')
      | (Inr d, s') \<Rightarrow>
          (case aggregate_random f gs s' of
             (Inl e, s'') \<Rightarrow> (Inl e, s'')
           | (Inr ds, s'') \<Rightarrow> (Inr (d # ds), s'')))"

record PA1Struct =
  rms :: pyfloat
  iqr :: pyfloat
  diffs :: "pyfloat list"
  means :: "pyfloat list"

definition calcPA1 ::
  "(real \<Rightarrow> real) \<Rightarrow> pyfloat list list \<Rightarrow> rng \<Rightarrow> (pyerror + PA1Struct) \<times> rng" where
  "calcPA1 norm_ppf groupView s =
     (case aggregate_random getRandomDiffRmsInMas groupView s of
        (Inl e, s') \<Rightarrow> (Inl e, s')
      | (Inr ds, s') \<Rightarrow>
          (ebind (computeWidths norm_ppf ds) (\<lambda>(rmsPA1, iqrPA1).
             Inr \<lparr>rms = rmsPA1, iqr = iqrPA1, diffs = ds, means = map np_mean groupView\<rparr>), s'))"

text \<open>
  \<^verbatim>\<open>calcPA2\<close>. The percentages are \<open>100 - [20, 10, 5]\<close>, in the order minimum,
  design, stretch, and the three percentiles are unpacked in that order.
\<close>

record PA2Struct =
  design :: pyfloat
  minimum :: pyfloat
  stretch :: pyfloat
  PF1 :: "string \<rightharpoonup> int"

definition PF1_table :: "string \<rightharpoonup> int" where
  "PF1_table = [''minimum'' \<mapsto> 20, ''design'' \<mapsto> 10, ''stretch'' \<mapsto> 5]"

definition dict_get :: "('k \<rightharpoonup> 'v) \<Rightarrow> 'k \<Rightarrow> pyerror + 'v" where
  "dict_get d k = (case d k of None \<Rightarrow> Inl KeyError | Some v \<Rightarrow> Inr v)"

definition PA2_of_diffs :: "pyfloat list \<Rightarrow> pyerror + PA2Struct" where
  "PA2_of_diffs ds =
     ebind (dict_get PF1_table ''minimum'') (\<lambda>pmin.
     ebind (dict_get PF1_table ''design'') (\<lambda>pdes.
     ebind (dict_get PF1_table ''stretch'') (\<lambda>pstr.
       let PF1_percentiles = map (\<lambda>p. 100 - real_of_int p) [pmin, pdes, pstr];
           absdiffs = map np_abs ds
       in ebind (np_percentile absdiffs (PF1_percentiles ! 0)) (\<lambda>minPA2.
          ebind (np_percentile absdiffs (PF1_percentiles ! 1)) (\<lambda>designPA2.
          ebind (np_percentile absdiffs (PF1_percentiles ! 2)) (\<lambda>stretchPA2.
            Inr \<lparr>design = designPA2, minimum = minPA2, stretch = stretchPA2,
                 PF1 = PF1_table\<rparr>))))))"

definition calcPA2 :: "pyfloat list list \<Rightarrow> rng \<Rightarrow> (pyerror + PA2Struct) \<times> rng" where
  "calcPA2 groupView s =
     (case aggregate_random getRandomDiffRmsInMas groupView s of
        (Inl e, s') \<Rightarrow> (Inl e, s')
      | (Inr ds, s') \<Rightarrow> (PA2_of_diffs ds, s'))"

section \<open>Astrometric repeatability (calcSrd.py, util.py)\<close>

text \<open>
  One record of a group of matched observations, with the fields that \<^verbatim>\<open>calcAMx\<close>
  reads. A group (the catalogue of one object) is the list of its records, so that the
  columns \<^verbatim>\<open>cat.get(name)\<close> of one group all have the group's length.
\<close>

record measurement =
  visit :: int
  coord_ra :: pyfloat
  coord_dec :: pyfloat
  base_PsfFlux_mag :: pyfloat

type_synonym catalog = "measurement list"

text \<open>
  \<^verbatim>\<open>averageRaDec\<close> asserts that the two lists have one length and hands the
  coordinates to \<^verbatim>\<open>afwCoord.averageCoord\<close>, which belongs to an external library and
  is the parameter \<open>averageCoord\<close>.
\<close>

definition averageRaDec ::
  "((pyfloat \<times> pyfloat) list \<Rightarrow> pyfloat \<times> pyfloat) \<Rightarrow> pyfloat list \<Rightarrow> pyfloat list \<Rightarrow>
   pyerror + (pyfloat \<times> pyfloat)" where
  "averageRaDec averageCoord ra dec =
     (if length ra = length dec then Inr (averageCoord (zip ra dec)) else Inl AssertionError)"

definition averageRaDecFromCat ::
  "((pyfloat \<times> pyfloat) list \<Rightarrow> pyfloat \<times> pyfloat) \<Rightarrow> catalog \<Rightarrow> pyerror + (pyfloat \<times> pyfloat)" where
  "averageRaDecFromCat averageCoord cat =
     averageRaDec averageCoord (map coord_ra cat) (map coord_dec cat)"

definition averageRaFromCat ::
  "((pyfloat \<times> pyfloat) list \<Rightarrow> pyfloat \<times> pyfloat) \<Rightarrow> catalog \<Rightarrow> pyerror + pyfloat" where
  "averageRaFromCat averageCoord cat =
     ebind (averageRaDecFromCat averageCoord cat) (\<lambda>(meanRa, meanDec). Inr meanRa)"

definition averageDecFromCat ::
  "((pyfloat \<times> pyfloat) list \<Rightarrow> pyfloat \<times> pyfloat) \<Rightarrow> catalog \<Rightarrow> pyerror + pyfloat" where
  "averageDecFromCat averageCoord cat =
     ebind (averageRaDecFromCat averageCoord cat) (\<lambda>(meanRa, meanDec). Inr meanDec)"

text \<open>\<^verbatim>\<open>groupView.aggregate(f)\<close> for a function that can raise.\<close>

fun aggregate :: "('a \<Rightarrow> pyerror + 'b) \<Rightarrow> 'a list \<Rightarrow> pyerror + 'b list" where
  "aggregate f [] = Inr []"
| "aggregate f (g # gs) = ebind (f g) (\<lambda>y. ebind (aggregate f gs) (\<lambda>ys. Inr (y # ys)))"

text \<open>
  The closure \<^verbatim>\<open>magInRange\<close> of \<^verbatim>\<open>calcAMx\<close>: the median of the finite magnitudes of
  the group against the two bounds, the lower one with \<^verbatim>\<open><=\<close> and the upper one
  with \<^verbatim>\<open><\<close>.
\<close>

definition magInRange :: "pyfloat \<times> pyfloat \<Rightarrow> catalog \<Rightarrow> bool" where
  "magInRange magRange cat =
     (let mag = map base_PsfFlux_mag cat;
          w = filter (\<lambda>k. isfinite (mag ! k)) [0..<length mag];
          medianMag = np_median (map (\<lambda>k. mag ! k) w)
      in fl_le (fst magRange) medianMag \<and> fl_lt medianMag (snd magRange))"

text \<open>
  The annulus test of one object against the objects after it: the indices, into the
  arrays of mean positions cut at \<open>obj1 + 1\<close>, of the distances inside the bounds.
\<close>

definition objectsInAnnulus ::
  "pyfloat \<times> pyfloat \<Rightarrow> pyfloat list \<Rightarrow> pyfloat list \<Rightarrow> nat \<Rightarrow> nat list" where
  "objectsInAnnulus annulusRadians meanRa meanDec obj1 =
     (let dist = map (\<lambda>(r, d). sphDist (meanRa ! obj1) (meanDec ! obj1) r d)
                   (zip (drop (obj1 + 1) meanRa) (drop (obj1 + 1) meanDec))
      in filter (\<lambda>k. fl_le (fst annulusRadians) (dist ! k) \<and> fl_lt (dist ! k) (snd annulusRadians))
           [0..<length dist])"

text \<open>
  The body of the inner loop for one pair of groups: the distances of the shared visits,
  nothing appended when there is none (after the diagnostic message), otherwise the
  standard deviation \<^verbatim>\<open>np.std\<close> of the finite ones.
\<close>

definition pairRmsDist :: "catalog \<Rightarrow> catalog \<Rightarrow> pyerror + pyfloat option" where
  "pairRmsDist g1 g2 =
     ebind (matchVisitComputeDistance (map visit g1) (map coord_ra g1) (map coord_dec g1)
              (map visit g2) (map coord_ra g2) (map coord_dec g2)) (\<lambda>distances.
       if distances = [] then Inr None
       else let finiteEntries = filter (\<lambda>k. isfinite (distances ! k)) [0..<length distances]
            in if length finiteEntries > 0
               then Inr (Some (np_std (map (\<lambda>k. distances ! k) finiteEntries)))
               else Inr None)"

text \<open>
  The inner loop over \<^verbatim>\<open>objectsInAnnulus\<close>. Each index \<open>obj2\<close> of that array is used
  as it is to read the lists of visits and coordinates of the second object.
\<close>

fun annulusLoop :: "catalog list \<Rightarrow> nat \<Rightarrow> nat list \<Rightarrow> pyfloat list \<Rightarrow> pyerror + pyfloat list" where
  "annulusLoop groups obj1 [] rmsDistances = Inr rmsDistances"
| "annulusLoop groups obj1 (obj2 # rest) rmsDistances =
     ebind (getitem groups obj1) (\<lambda>g1.
     ebind (getitem groups obj2) (\<lambda>g2.
     ebind (pairRmsDist g1 g2) (\<lambda>r.
       case r of
         None \<Rightarrow> annulusLoop groups obj1 rest rmsDistances
       | Some rmsDist \<Rightarrow> annulusLoop groups obj1 rest (rmsDistances @ [rmsDist]))))"

fun objectLoop ::
  "catalog list \<Rightarrow> pyfloat \<times> pyfloat \<Rightarrow> pyfloat list \<Rightarrow> pyfloat list \<Rightarrow> nat list \<Rightarrow> pyfloat list \<Rightarrow>
   pyerror + pyfloat list" where
  "objectLoop groups annulusRadians meanRa meanDec [] rmsDistances = Inr rmsDistances"
| "objectLoop groups annulusRadians meanRa meanDec (obj1 # rest) rmsDistances =
     ebind (annulusLoop groups obj1 (objectsInAnnulus annulusRadians meanRa meanDec obj1)
              rmsDistances)
       (\<lambda>rmsDistances'. objectLoop groups annulusRadians meanRa meanDec rest rmsDistances')"

definition groupViewInMagRange :: "pyfloat \<times> pyfloat \<Rightarrow> catalog list \<Rightarrow> catalog list" where
  "groupViewInMagRange magRange groupView = filter (magInRange magRange) groupView"

definition annulusOf :: "pyfloat \<Rightarrow> pyfloat \<Rightarrow> pyfloat \<times> pyfloat" where
  "annulusOf D width =
     (fl_add D (fl_mul (fl_div width (Fin 2)) (Fin (- 1))),
      fl_add D (fl_mul (fl_div width (Fin 2)) (Fin 1)))"

text \<open>
  \<^verbatim>\<open>calcAMx\<close>. The schema of the group view holds the six fields that the function
  looks up. The lists \<^verbatim>\<open>ra\<close>, \<^verbatim>\<open>dec\<close> and \<^verbatim>\<open>visit\<close> are the slices of the
  key-major list \<^verbatim>\<open>matchKeyOutput\<close> for the keys at positions 1, 2 and 4, that is the
  columns \<^verbatim>\<open>coord_ra\<close>, \<^verbatim>\<open>coord_dec\<close> and \<^verbatim>\<open>visit\<close> of each group in the magnitude
  range; the loops read them through the groups. The loop over \<^verbatim>\<open>enumerate(zip(...))\<close>
  runs over the indices of the shortest of its three lists.
\<close>

record AMxStruct =
  AMx :: "pyfloat list"
  D :: pyfloat
  annulus :: "pyfloat \<times> pyfloat"
  magRange :: "pyfloat \<times> pyfloat"

definition calcAMx ::
  "((pyfloat \<times> pyfloat) list \<Rightarrow> pyfloat \<times> pyfloat) \<Rightarrow> catalog list \<Rightarrow> pyfloat \<Rightarrow> pyfloat \<Rightarrow>
   (pyfloat \<times> pyfloat) option \<Rightarrow> pyerror + AMxStruct" where
  "calcAMx averageCoord groupView D_arg width magRange_arg =
     (let magRange' = (case magRange_arg of None \<Rightarrow> (Fin 17.0, Fin 21.5) | Some r \<Rightarrow> r);
          groups = groupViewInMagRange magRange' groupView
      in ebind (aggregate (averageRaFromCat averageCoord) groups) (\<lambda>meanRa.
         ebind (aggregate (averageDecFromCat averageCoord) groups) (\<lambda>meanDec.
           let annulus' = annulusOf D_arg width;
               annulusRadians = (arcminToRadians (fst annulus'), arcminToRadians (snd annulus'))
           in ebind (objectLoop groups annulusRadians meanRa meanDec
                       [0..<min (length meanRa) (min (length meanDec) (length groups))] [])
                (\<lambda>rmsDistances.
                   Inr \<lparr>AMx = map radiansToMilliarcsec rmsDistances, D = D_arg,
                        annulus = annulus', magRange = magRange'\<rparr>))))"

section \<open>Data identifiers (util.py)\<close>

text \<open>
  A data identifier is a Python dictionary from field names to values; the values that
  occur are integers (visit and detector numbers) and strings (the filter name).
\<close>

datatype pyval = PyInt int | PyStr string

type_synonym dataId = "string \<rightharpoonup> pyval"

text \<open>
  \<^verbatim>\<open>constructDataIds(filter, visits, ccds, ccdKeyName='ccd')\<close>: the list comprehension
  over the visits (outer) and the detectors (inner). The dictionary display
  \<^verbatim>\<open>{'visit': v, 'filter': filter, ccdKeyName: c}\<close> stores its items from left to
  right, so a \<^verbatim>\<open>ccdKeyName\<close> equal to one of the two fixed keys overwrites that entry.
  The optional argument is \<open>None\<close> when the caller leaves it out.
\<close>

definition dataIdOf :: "string \<Rightarrow> string \<Rightarrow> int \<Rightarrow> int \<Rightarrow> dataId" where
  "dataIdOf filter_name ccdKeyName v c =
     [''visit'' \<mapsto> PyInt v, ''filter'' \<mapsto> PyStr filter_name, ccdKeyName \<mapsto> PyInt c]"

definition constructDataIds :: "string \<Rightarrow> int list \<Rightarrow> int list \<Rightarrow> string option \<Rightarrow> dataId list" where
  "constructDataIds filter_name visits ccds ccdKeyName =
     (let k = (case ccdKeyName of None \<Rightarrow> ''ccd'' | Some name \<Rightarrow> name)
      in concat (map (\<lambda>v. map (\<lambda>c. dataIdOf filter_name k v c) ccds) visits))"

section \<open>Reference definitions\<close>

text \<open>
  The mathematical quantities that the theorems compare the code with, on real numbers.
  The argument of the arc sine in the haversine formula:
\<close>

definition haversine :: "real \<Rightarrow> real \<Rightarrow> real \<Rightarrow> real \<Rightarrow> real" where
  "haversine r1 d1 r2 d2 =
     (sin ((d1 - d2) / 2))\<^sup>2 + cos d1 * cos d2 * (sin ((r1 - r2) / 2))\<^sup>2"


text \<open>
  The test of one pair of indices in \<^verbatim>\<open>matchVisitComputeDistance\<close>: the visits are
  equal and the four coordinates are finite.
\<close>

definition matchedFinite ::
  "'v list \<Rightarrow> pyfloat list \<Rightarrow> pyfloat list \<Rightarrow> 'v list \<Rightarrow> pyfloat list \<Rightarrow> pyfloat list \<Rightarrow>
   nat \<Rightarrow> nat \<Rightarrow> bool" where
  "matchedFinite v1 r1 d1 v2 r2 d2 i j =
     (v1 ! i = v2 ! j \<and> isfinite (r1 ! i) \<and> isfinite (d1 ! i) \<and>
      isfinite (r2 ! j) \<and> isfinite (d2 ! j))"

text \<open>
  The percentile with linear interpolation on real numbers: the value at the virtual
  index \<open>pos\<close> of a sorted list lies between the elements at the indices below and
  above \<open>pos\<close>.
\<close>

definition interpolate :: "real list \<Rightarrow> real \<Rightarrow> real" where
  "interpolate s pos =
     (let lo = nat \<lfloor>pos\<rfloor>; hi = min (lo + 1) (length s - 1)
      in s ! lo + (s ! hi - s ! lo) * (pos - real lo))"

definition percentile :: "real list \<Rightarrow> real \<Rightarrow> real" where
  "percentile xs q = interpolate (sort xs) (q / 100 * real (length xs - 1))"

text \<open>The root of the mean of the squares, and the mean, of a list of real numbers.\<close>

definition mean :: "real list \<Rightarrow> real" where
  "mean xs = sum_list xs / real (length xs)"


text \<open>The median of a list of real numbers, and the finite values of a float array.\<close>

definition median :: "real list \<Rightarrow> real" where
  "median xs =
     (let s = sort xs; n = length xs
      in if odd n then s ! (n div 2) else (s ! (n div 2 - 1) + s ! (n div 2)) / 2)"

fun finite_values :: "pyfloat list \<Rightarrow> real list" where
  "finite_values [] = []"
| "finite_values (Fin a # xs) = a # finite_values xs"
| "finite_values (PInf # xs) = finite_values xs"
| "finite_values (NInf # xs) = finite_values xs"
| "finite_values (NaN # xs) = finite_values xs"

text \<open>
  The population standard deviation of a list of real numbers: the root of the mean of
  the squared deviations from the mean.
\<close>

definition std_dev :: "real list \<Rightarrow> real" where
  "std_dev xs = sqrt (mean (map (\<lambda>x. (x - mean xs)\<^sup>2) xs))"

text \<open>
  The finite shared-visit distances of two groups: the spherical distances of the
  positions of the two objects in every pair of records with the same visit and finite
  coordinates, the finite ones among them.
\<close>

definition shared_distances :: "catalog \<Rightarrow> catalog \<Rightarrow> real list" where
  "shared_distances g1 g2 =
     finite_values
       (map (\<lambda>(i, j). sphDist (coord_ra (g1 ! i)) (coord_dec (g1 ! i))
                       (coord_ra (g2 ! j)) (coord_dec (g2 ! j)))
          (filter (\<lambda>(i, j). visit (g1 ! i) = visit (g2 ! j) \<and>
                     isfinite (coord_ra (g1 ! i)) \<and> isfinite (coord_dec (g1 ! i)) \<and>
                     isfinite (coord_ra (g2 ! j)) \<and> isfinite (coord_dec (g2 ! j)))
             (List.product [0..<length g1] [0..<length g2])))"

section \<open>An example group view\<close>





text \<open>
  Two objects observed in the same two visits. The first stays at the origin; the second
  is 5 arc minutes from it in the first visit and 5.5 arc minutes in the second. For
  positions on the equator as close as these the spherical average is the arithmetic
  mean of the coordinates, which is what \<open>averageEquator\<close> returns.
\<close>

definition starP :: catalog where
  "starP = [\<lparr>visit = 1, coord_ra = Fin 0, coord_dec = Fin 0, base_PsfFlux_mag = Fin 20\<rparr>,
            \<lparr>visit = 2, coord_ra = Fin 0, coord_dec = Fin 0, base_PsfFlux_mag = Fin 20\<rparr>]"

definition starQ :: catalog where
  "starQ = [\<lparr>visit = 1, coord_ra = Fin (pi / 2160), coord_dec = Fin 0, base_PsfFlux_mag = Fin 20\<rparr>,
            \<lparr>visit = 2, coord_ra = Fin (11 * pi / 21600), coord_dec = Fin 0,
             base_PsfFlux_mag = Fin 20\<rparr>]"

definition averageEquator :: "(pyfloat \<times> pyfloat) list \<Rightarrow> pyfloat \<times> pyfloat" where
  "averageEquator coords = (np_mean (map fst coords), np_mean (map snd coords))"
section \<open>Facts about the float operations\<close>

lemma fl_add_NaN [simp]: "fl_add x NaN = NaN" "fl_add NaN x = NaN"
  by (cases x; simp)+

lemma fl_mul_NaN [simp]: "fl_mul x NaN = NaN" "fl_mul NaN x = NaN"
  by (cases x; simp)+

lemma fl_div_NaN [simp]: "fl_div x NaN = NaN" "fl_div NaN x = NaN"
  by (cases x; simp)+

lemma fl_sub_NaN [simp]: "fl_sub x NaN = NaN" "fl_sub NaN x = NaN"
  by (simp_all add: fl_sub_def)

lemma fl_sub_Fin [simp]: "fl_sub (Fin a) (Fin b) = Fin (a - b)"
  by (simp add: fl_sub_def)

lemma np_square_Fin [simp]: "np_square (Fin a) = Fin (a\<^sup>2)"
  by (simp add: np_square_def power2_eq_square)

lemma np_square_NaN [simp]: "np_square NaN = NaN"
  by (simp add: np_square_def)

section \<open>Theorems: spherical distance\<close>

lemma half_bounds:
  "- 1 \<le> c \<Longrightarrow> c \<le> 1 \<Longrightarrow>
   0 \<le> (1 - c) / 2 \<and> (1 - c) / 2 \<le> 1 \<and> 0 \<le> (1 + c) / 2 \<and> (1 + c) / 2 \<le> (1::real)"
  by simp

lemma sin_half_sq: "(sin (x / 2))\<^sup>2 = (1 - cos x) / (2::real)"
proof -
  define y where "y = x / 2"
  have x: "x = 2 * y" by (simp add: y_def)
  have "cos (2 * y) = 1 - 2 * (sin y)\<^sup>2" by (rule cos_double_sin)
  then have "(sin y)\<^sup>2 = (1 - cos (2 * y)) / 2" by simp
  then show ?thesis unfolding x by simp
qed

lemma hav_range:
  fixes d1 d2 r :: real
  defines "a \<equiv> (sin ((d1 - d2) / 2))\<^sup>2 + cos d1 * cos d2 * (sin (r / 2))\<^sup>2"
  shows "0 \<le> a \<and> a \<le> 1"
proof -
  define s where "s = (sin (r / 2))\<^sup>2"
  have s01: "0 \<le> s" "s \<le> 1" unfolding s_def by (simp_all add: abs_square_le_1)
  have h: "(sin ((d1 - d2) / 2))\<^sup>2 = (1 - cos (d1 - d2)) / 2"
    by (rule sin_half_sq)
  define A0 where "A0 = (1 - cos (d1 - d2)) / 2"
  define A1 where "A1 = (1 + cos (d1 + d2)) / 2"
  have A0: "0 \<le> A0" "A0 \<le> 1"
    unfolding A0_def using half_bounds [OF cos_ge_minus_one cos_le_one, of "d1 - d2"] by blast+
  have A1: "0 \<le> A1" "A1 \<le> 1"
    unfolding A1_def using half_bounds [OF cos_ge_minus_one cos_le_one, of "d1 + d2"] by blast+
  have "a = (1 - s) * A0 + s * A1"
    unfolding a_def h A0_def A1_def s_def [symmetric]
    by (simp add: cos_add cos_diff field_simps)
  moreover have "0 \<le> (1 - s) * A0 + s * A1" using s01 A0 A1 by simp
  moreover have "(1 - s) * A0 + s * A1 \<le> (1 - s) * 1 + s * 1"
    using s01 A0 A1 by (intro add_mono mult_left_mono) simp_all
  ultimately show ?thesis by simp
qed

lemma haversine_range: "0 \<le> haversine r1 d1 r2 d2 \<and> haversine r1 d1 r2 d2 \<le> 1"
  unfolding haversine_def by (rule hav_range)

lemma sphDist_Fin:
  "sphDist (Fin r1) (Fin d1) (Fin r2) (Fin d2) = Fin (2 * arcsin (sqrt (haversine r1 d1 r2 d2)))"
proof -
  have h: "0 \<le> haversine r1 d1 r2 d2" "haversine r1 d1 r2 d2 \<le> 1"
    using haversine_range by blast+
  then have "sqrt (haversine r1 d1 r2 d2) \<le> 1" by simp
  moreover have "- 1 \<le> sqrt (haversine r1 d1 r2 d2)"
    using h(1) by (meson order_trans real_sqrt_ge_zero zero_le_one neg_le_0_iff_le)
  ultimately show ?thesis
    using h(1) by (simp add: sphDist_def Let_def haversine_def [symmetric] not_less)
qed

lemma haversine_sym: "haversine r1 d1 r2 d2 = haversine r2 d2 r1 d1"
proof -
  have "(d1 - d2) / 2 = - ((d2 - d1) / 2)" by argo
  then have a: "sin ((d1 - d2) / 2) = - sin ((d2 - d1) / 2)"
    by (simp only: sin_minus)
  have "(r1 - r2) / 2 = - ((r2 - r1) / 2)" by argo
  then have b: "sin ((r1 - r2) / 2) = - sin ((r2 - r1) / 2)"
    by (simp only: sin_minus)
  show ?thesis unfolding haversine_def a b by (simp add: mult.commute)
qed

text \<open>
  C6. For all finite inputs \<open>sphDist\<close> is finite and non-negative, is 0 when the two
  points are the same, and is symmetric in the two points; when any of the four inputs
  is NaN the result is NaN, whatever the other inputs are.
\<close>

theorem sphDist_properties:
  "fl_le (Fin 0) (sphDist (Fin ra1) (Fin dec1) (Fin ra2) (Fin dec2)) \<and>
   isfinite (sphDist (Fin ra1) (Fin dec1) (Fin ra2) (Fin dec2)) \<and>
   sphDist (Fin ra1) (Fin dec1) (Fin ra1) (Fin dec1) = Fin 0 \<and>
   sphDist (Fin ra1) (Fin dec1) (Fin ra2) (Fin dec2) =
     sphDist (Fin ra2) (Fin dec2) (Fin ra1) (Fin dec1) \<and>
   sphDist NaN y z w = NaN \<and> sphDist x NaN z w = NaN \<and>
   sphDist x y NaN w = NaN \<and> sphDist x y z NaN = NaN"
proof (intro conjI)
  have h: "0 \<le> haversine ra1 dec1 ra2 dec2" "haversine ra1 dec1 ra2 dec2 \<le> 1"
    using haversine_range by blast+
  have "0 \<le> arcsin (sqrt (haversine ra1 dec1 ra2 dec2))"
    using h by (intro arcsin_nonneg) simp
  then show "fl_le (Fin 0) (sphDist (Fin ra1) (Fin dec1) (Fin ra2) (Fin dec2))"
    by (simp add: sphDist_Fin)
  show "isfinite (sphDist (Fin ra1) (Fin dec1) (Fin ra2) (Fin dec2))"
    by (simp add: sphDist_Fin)
  show "sphDist (Fin ra1) (Fin dec1) (Fin ra1) (Fin dec1) = Fin 0"
    by (simp add: sphDist_Fin haversine_def)
  show "sphDist (Fin ra1) (Fin dec1) (Fin ra2) (Fin dec2) =
     sphDist (Fin ra2) (Fin dec2) (Fin ra1) (Fin dec1)"
    by (simp add: sphDist_Fin haversine_sym [of ra1 dec1 ra2 dec2])
  show "sphDist NaN y z w = NaN" by (simp add: sphDist_def)
  show "sphDist x NaN z w = NaN" by (simp add: sphDist_def)
  show "sphDist x y NaN w = NaN" by (simp add: sphDist_def)
  show "sphDist x y z NaN = NaN" by (simp add: sphDist_def)
qed
section \<open>Theorems: distances of shared visits\<close>

lemma ebind_Inr [simp]: "ebind (Inr x) f = f x"
  by (simp add: ebind_def)

lemma ebind_Inl [simp]: "ebind (Inl e) f = Inl e"
  by (simp add: ebind_def)

lemma getitem_in_range [simp]: "i < length xs \<Longrightarrow> getitem xs i = Inr (xs ! i)"
  by (simp add: getitem_def)

lemma getitem_out_of_range [simp]: "length xs \<le> i \<Longrightarrow> getitem xs i = Inl IndexError"
  by (simp add: getitem_def)

lemma matchInner_no_match:
  "\<forall>j \<in> set js. v1 ! i \<noteq> v2 ! j \<Longrightarrow> matchInner v1 r1 d1 v2 r2 d2 i js acc = Inr acc"
  by (induction js arbitrary: acc) (simp_all add: matchBody_def)

lemma matchOuter_no_match:
  "\<forall>i \<in> set is. \<forall>j < length v2. v1 ! i \<noteq> v2 ! j \<Longrightarrow>
   matchOuter v1 r1 d1 v2 r2 d2 is acc = Inr acc"
  by (induction "is" arbitrary: acc) (simp_all add: matchInner_no_match)

lemma matchBody_eq:
  "i < length r1 \<Longrightarrow> i < length d1 \<Longrightarrow> j < length r2 \<Longrightarrow> j < length d2 \<Longrightarrow>
   matchBody v1 r1 d1 v2 r2 d2 i j acc =
     Inr (if matchedFinite v1 r1 d1 v2 r2 d2 i j
          then acc @ [sphDist (r1 ! i) (d1 ! i) (r2 ! j) (d2 ! j)] else acc)"
  by (simp add: matchBody_def matchedFinite_def)

lemma matchInner_eq:
  assumes "i < length r1" "i < length d1" "\<forall>j \<in> set js. j < length r2 \<and> j < length d2"
  shows "matchInner v1 r1 d1 v2 r2 d2 i js acc =
    Inr (acc @ map (\<lambda>j. sphDist (r1 ! i) (d1 ! i) (r2 ! j) (d2 ! j))
           (filter (matchedFinite v1 r1 d1 v2 r2 d2 i) js))"
  using assms(3)
proof (induction js arbitrary: acc)
  case Nil
  then show ?case by simp
next
  case (Cons j js)
  then have j: "j < length r2" "j < length d2" by simp_all
  from Cons have IH: "\<And>acc. matchInner v1 r1 d1 v2 r2 d2 i js acc =
    Inr (acc @ map (\<lambda>j. sphDist (r1 ! i) (d1 ! i) (r2 ! j) (d2 ! j))
           (filter (matchedFinite v1 r1 d1 v2 r2 d2 i) js))" by simp
  show ?case
    using assms(1,2) j by (simp add: matchBody_eq IH)
qed

lemma matchOuter_eq:
  assumes "\<forall>i \<in> set is. i < length r1 \<and> i < length d1"
    and "length v2 \<le> length r2" "length v2 \<le> length d2"
  shows "matchOuter v1 r1 d1 v2 r2 d2 is acc =
    Inr (acc @ concat (map (\<lambda>i. map (\<lambda>j. sphDist (r1 ! i) (d1 ! i) (r2 ! j) (d2 ! j))
           (filter (matchedFinite v1 r1 d1 v2 r2 d2 i) [0..<length v2])) is))"
  using assms(1)
proof (induction "is" arbitrary: acc)
  case Nil
  then show ?case by simp
next
  case (Cons i "is")
  then have i: "i < length r1" "i < length d1" by simp_all
  have js: "\<forall>j \<in> set [0..<length v2]. j < length r2 \<and> j < length d2"
    using assms(2,3) by auto
  from Cons have IH: "\<And>acc. matchOuter v1 r1 d1 v2 r2 d2 is acc =
    Inr (acc @ concat (map (\<lambda>i. map (\<lambda>j. sphDist (r1 ! i) (d1 ! i) (r2 ! j) (d2 ! j))
           (filter (matchedFinite v1 r1 d1 v2 r2 d2 i) [0..<length v2])) is))" by simp
  show ?case
    by (simp add: matchInner_eq [OF i js] IH)
qed

lemma concat_map_filter_product:
  "concat (map (\<lambda>i. map (f i) (filter (p i) js)) is) =
   map (\<lambda>(i, j). f i j) (filter (\<lambda>(i, j). p i j) (List.product is js))"
  by (induction "is") (simp_all add: filter_map comp_def)

text \<open>
  C4. With coordinate lists as long as their visit lists, \<open>matchVisitComputeDistance\<close>
  returns, in the order of the two loops, exactly one distance for each pair of indices
  \<open>(i, j)\<close> whose visits are equal and whose four coordinates are finite, namely
  \<open>sphDist\<close> of those coordinates, and nothing for any other pair; and when the two
  visit lists have no identifier in common the result is the empty list, not an error.
\<close>

theorem matchVisitComputeDistance_pairs:
  "(length ra1 = length v1 \<and> length dec1 = length v1 \<and>
    length ra2 = length v2 \<and> length dec2 = length v2 \<longrightarrow>
    matchVisitComputeDistance v1 ra1 dec1 v2 ra2 dec2 =
      Inr (map (\<lambda>(i, j). sphDist (ra1 ! i) (dec1 ! i) (ra2 ! j) (dec2 ! j))
            (filter (\<lambda>(i, j). v1 ! i = v2 ! j \<and> isfinite (ra1 ! i) \<and> isfinite (dec1 ! i) \<and>
                       isfinite (ra2 ! j) \<and> isfinite (dec2 ! j))
               (List.product [0..<length v1] [0..<length v2])))) \<and>
   (set v1 \<inter> set v2 = {} \<longrightarrow> matchVisitComputeDistance v1 ra1 dec1 v2 ra2 dec2 = Inr [])"
proof (intro conjI impI)
  assume len: "length ra1 = length v1 \<and> length dec1 = length v1 \<and>
    length ra2 = length v2 \<and> length dec2 = length v2"
  then have a: "\<forall>i \<in> set [0..<length v1]. i < length ra1 \<and> i < length dec1"
    and b: "length v2 \<le> length ra2" "length v2 \<le> length dec2" by simp_all
  have "matchVisitComputeDistance v1 ra1 dec1 v2 ra2 dec2 =
    Inr (concat (map (\<lambda>i. map (\<lambda>j. sphDist (ra1 ! i) (dec1 ! i) (ra2 ! j) (dec2 ! j))
           (filter (matchedFinite v1 ra1 dec1 v2 ra2 dec2 i) [0..<length v2])) [0..<length v1]))"
    unfolding matchVisitComputeDistance_def by (simp add: matchOuter_eq [OF a b])
  also have "\<dots> = Inr (map (\<lambda>(i, j). sphDist (ra1 ! i) (dec1 ! i) (ra2 ! j) (dec2 ! j))
            (filter (\<lambda>(i, j). matchedFinite v1 ra1 dec1 v2 ra2 dec2 i j)
               (List.product [0..<length v1] [0..<length v2])))"
    by (simp only: concat_map_filter_product)
  finally show "matchVisitComputeDistance v1 ra1 dec1 v2 ra2 dec2 =
      Inr (map (\<lambda>(i, j). sphDist (ra1 ! i) (dec1 ! i) (ra2 ! j) (dec2 ! j))
            (filter (\<lambda>(i, j). v1 ! i = v2 ! j \<and> isfinite (ra1 ! i) \<and> isfinite (dec1 ! i) \<and>
                       isfinite (ra2 ! j) \<and> isfinite (dec2 ! j))
               (List.product [0..<length v1] [0..<length v2])))"
    by (simp add: matchedFinite_def)
next
  assume "set v1 \<inter> set v2 = {}"
  then have "\<forall>i \<in> set [0..<length v1]. \<forall>j < length v2. v1 ! i \<noteq> v2 ! j"
    by (metis atLeastLessThan_iff disjoint_iff nth_mem set_upt)
  then show "matchVisitComputeDistance v1 ra1 dec1 v2 ra2 dec2 = Inr []"
    unfolding matchVisitComputeDistance_def by (rule matchOuter_no_match)
qed

theorem matchVisitComputeDistance_pairs_witness:
  "length [Fin 0, NaN] = length [1, 2 :: int] \<and> length [Fin 0, Fin 0] = length [1, 2 :: int] \<and>
   length [Fin 0, Fin 0] = length [2, 1 :: int] \<and>
   matchVisitComputeDistance [1, 2 :: int] [Fin 0, NaN] [Fin 0, Fin 0]
      [2, 1] [Fin 0, Fin 0] [Fin 0, Fin 0] = Inr [sphDist (Fin 0) (Fin 0) (Fin 0) (Fin 0)] \<and>
   set [1, 2 :: int] \<inter> set [3, 4] = {} \<and>
   matchVisitComputeDistance [1, 2 :: int] [Fin 0, NaN] [Fin 0, Fin 0]
      [3, 4] [Fin 0, Fin 0] [Fin 0, Fin 0] = Inr []"
  using matchVisitComputeDistance_pairs [of "[Fin 0, NaN]" "[1, 2 :: int]" "[Fin 0, Fin 0]"
      "[Fin 0, Fin 0]" "[2, 1]" "[Fin 0, Fin 0]"]
    matchVisitComputeDistance_pairs [of "[Fin 0, NaN]" "[1, 2 :: int]" "[Fin 0, Fin 0]"
      "[Fin 0, Fin 0]" "[3, 4]" "[Fin 0, Fin 0]"]
  by (simp add: upt_conv_Cons)

section \<open>Theorems: random pair differences\<close>

lemma shuffle_loop_mset:
  "\<forall>i \<in> set is. i < length xs \<Longrightarrow>
   mset (fst (shuffle_loop is s xs)) = mset xs \<and> length (fst (shuffle_loop is s xs)) = length xs"
proof (induction "is" arbitrary: s xs)
  case Nil
  then show ?case by simp
next
  case (Cons i "is")
  define j where "j = s 0 mod (i + 1)"
  define s' :: rng where "s' = (\<lambda>k. s (k + 1))"
  define ys where "ys = xs[i := xs ! j, j := xs ! i]"
  from Cons.prems have i: "i < length xs" by simp
  have "j \<le> i" unfolding j_def by (simp add: less_Suc_eq_le [symmetric])
  with i have j: "j < length xs" by simp
  have ys: "mset ys = mset xs" "length ys = length xs"
    unfolding ys_def using mset_swap [OF j i] by simp_all
  have step: "shuffle_loop (i # is) s xs = shuffle_loop is s' ys"
    by (simp add: random_interval_def j_def s'_def ys_def)
  from Cons.prems ys(2) have "\<forall>i \<in> set is. i < length ys" by simp
  from Cons.IH [OF this, of s'] ys step show ?case by simp
qed

lemma np_random_shuffle_mset:
  "mset (fst (np_random_shuffle s xs)) = mset xs"
  unfolding np_random_shuffle_def by (rule shuffle_loop_mset [THEN conjunct1]) simp

lemma shuffle_two:
  "np_random_shuffle s [a, b] = ((if s 0 mod 2 = 1 then [a, b] else [b, a]), \<lambda>k. s (k + 1))"
proof -
  define j where "j = s 0 mod 2"
  have r: "rev [1..<length [a, b]] = [1::nat]" by (simp add: upt_conv_Cons)
  have m: "s 0 mod (1 + 1) = j" by (simp add: j_def numeral_2_eq_2)
  have loop: "np_random_shuffle s [a, b] = ([a, b][1 := [a, b] ! j, j := [a, b] ! 1], \<lambda>k. s (k + 1))"
    unfolding np_random_shuffle_def r
    by (simp only: shuffle_loop.simps random_interval_def m prod.case)
  have "j = 0 \<or> j = 1" unfolding j_def by arith
  then show ?thesis
  proof
    assume "j = 0"
    then show ?thesis using loop j_def by simp
  next
    assume "j = 1"
    then show ?thesis using loop j_def by simp
  qed
qed

lemma getRandomDiff_two:
  "fst (getRandomDiff [a, b] s) = Inr (if s 0 mod 2 = 1 then fl_sub a b else fl_sub b a)"
  by (simp add: getRandomDiff_def shuffle_two)

lemma fl_sub_nonzero: "a \<noteq> b \<Longrightarrow> fl_sub a b \<noteq> Fin 0"
  by (cases a; cases b) (simp_all add: fl_sub_def)

text \<open>
  C7. For every array of two elements \<open>[a, b]\<close> and every state of the random source,
  \<open>getRandomDiff\<close> returns \<open>a - b\<close> or \<open>b - a\<close>, never 0 when \<open>a\<close> and \<open>b\<close>
  differ; both orders occur for some state of the source, and the shuffled copy holds
  exactly the two elements.
\<close>

theorem getRandomDiff_two_elements:
  "(fst (getRandomDiff [a, b] s) = Inr (fl_sub a b) \<or>
    fst (getRandomDiff [a, b] s) = Inr (fl_sub b a)) \<and>
   (a \<noteq> b \<longrightarrow> fst (getRandomDiff [a, b] s) \<noteq> Inr (Fin 0)) \<and>
   (\<exists>s1. fst (getRandomDiff [a, b] s1) = Inr (fl_sub a b)) \<and>
   (\<exists>s2. fst (getRandomDiff [a, b] s2) = Inr (fl_sub b a)) \<and>
   mset (fst (np_random_shuffle s [a, b])) = {#a, b#}"
proof (intro conjI impI)
  show "fst (getRandomDiff [a, b] s) = Inr (fl_sub a b) \<or>
    fst (getRandomDiff [a, b] s) = Inr (fl_sub b a)"
    by (simp add: getRandomDiff_two)
  show "fst (getRandomDiff [a, b] s) \<noteq> Inr (Fin 0)" if "a \<noteq> b"
    using that fl_sub_nonzero [of a b] fl_sub_nonzero [of b a]
    by (simp add: getRandomDiff_two)
  show "\<exists>s1. fst (getRandomDiff [a, b] s1) = Inr (fl_sub a b)"
    by (rule exI [where x = "\<lambda>k. 1"]) (simp add: getRandomDiff_two)
  show "\<exists>s2. fst (getRandomDiff [a, b] s2) = Inr (fl_sub b a)"
    by (rule exI [where x = "\<lambda>k. 0"]) (simp add: getRandomDiff_two)
  show "mset (fst (np_random_shuffle s [a, b])) = {#a, b#}"
    by (simp add: np_random_shuffle_mset)
qed

theorem getRandomDiff_two_elements_witness:
  "Fin 24.2 \<noteq> Fin 25.5 \<and>
   fst (getRandomDiff [Fin 24.2, Fin 25.5] (\<lambda>k. k)) = Inr (Fin 1.3) \<and>
   fst (getRandomDiff [Fin 24.2, Fin 25.5] (\<lambda>k. k)) \<noteq> Inr (Fin 0)"
proof -
  have ne: "Fin 24.2 \<noteq> Fin 25.5" by simp
  have v: "fst (getRandomDiff [Fin 24.2, Fin 25.5] (\<lambda>k. k)) = Inr (Fin 1.3)"
    by (simp add: getRandomDiff_def np_random_shuffle_def random_interval_def
        upt_conv_Cons fl_sub_def)
  from getRandomDiff_two_elements [of "Fin 24.2" "Fin 25.5" "\<lambda>k. k"] ne
  have "fst (getRandomDiff [Fin 24.2, Fin 25.5] (\<lambda>k. k)) \<noteq> Inr (Fin 0)" by blast
  with ne v show ?thesis by blast
qed

text \<open>
  C8. On an array of exactly one element \<open>getRandomDiff\<close> raises \<open>IndexError\<close> (the
  read of the second element of the copy), for every state of the random source, which
  the shuffle of one element leaves as it was.
\<close>

theorem getRandomDiff_one_element:
  "getRandomDiff [x] s = (Inl IndexError, s)"
  by (simp add: getRandomDiff_def np_random_shuffle_def)

section \<open>Facts about sorting and percentiles\<close>

lemma fl_insort_Fin: "fl_insort (Fin x) (map Fin ys) = map Fin (insort x ys)"
  by (induction ys) simp_all

lemma fl_sort_Fin: "fl_sort (map Fin xs) = map Fin (sort xs)"
proof -
  have "foldr fl_insort (map Fin xs) [] = map Fin (foldr insort xs [])"
    by (induction xs) (simp_all add: fl_insort_Fin)
  then show ?thesis by (simp add: fl_sort_def sort_key_def)
qed

lemma NaN_notin_Fin [simp]: "NaN \<notin> Fin ` A"
  by auto

lemma interpolate_bounds:
  assumes "sorted s" "s \<noteq> []" "0 \<le> pos" "pos \<le> real (length s - 1)"
  shows "s ! nat \<lfloor>pos\<rfloor> \<le> interpolate s pos"
    and "interpolate s pos \<le> s ! min (nat \<lfloor>pos\<rfloor> + 1) (length s - 1)"
    and "nat \<lfloor>pos\<rfloor> \<le> length s - 1"
proof -
  define lo where "lo = nat \<lfloor>pos\<rfloor>"
  define hi where "hi = min (lo + 1) (length s - 1)"
  define frac where "frac = pos - real lo"
  have lo_le: "real lo \<le> pos" unfolding lo_def using assms(3) by simp
  have "pos < real lo + 1" unfolding lo_def using assms(3) by linarith
  then have frac: "0 \<le> frac" "frac \<le> 1" unfolding frac_def using lo_le by simp_all
  from lo_le assms(4) have "real lo \<le> real (length s - 1)" by linarith
  then show lo_n: "nat \<lfloor>pos\<rfloor> \<le> length s - 1" unfolding lo_def by simp
  then have lo_n': "lo \<le> length s - 1" by (simp add: lo_def)
  have "0 < length s" using assms(2) by simp
  then have hi_n: "hi < length s" unfolding hi_def by arith
  have lo_hi: "lo \<le> hi" unfolding hi_def using lo_n' by simp
  have d: "s ! lo \<le> s ! hi" using assms(1) lo_hi hi_n by (rule sorted_nth_mono)
  have P: "interpolate s pos = s ! lo + (s ! hi - s ! lo) * frac"
    by (simp add: interpolate_def Let_def lo_def hi_def frac_def)
  have "0 \<le> (s ! hi - s ! lo) * frac" using d frac by simp
  then show "s ! nat \<lfloor>pos\<rfloor> \<le> interpolate s pos" unfolding P lo_def [symmetric] by simp
  have "(s ! hi - s ! lo) * frac \<le> (s ! hi - s ! lo) * 1"
    using d frac by (intro mult_left_mono) simp_all
  then show "interpolate s pos \<le> s ! min (nat \<lfloor>pos\<rfloor> + 1) (length s - 1)"
    unfolding P lo_def [symmetric] hi_def [symmetric] by simp
qed

lemma interpolate_mono:
  assumes "sorted s" "s \<noteq> []" "0 \<le> p1" "p1 \<le> p2" "p2 \<le> real (length s - 1)"
  shows "interpolate s p1 \<le> interpolate s p2"
proof -
  define l1 where "l1 = nat \<lfloor>p1\<rfloor>"
  define l2 where "l2 = nat \<lfloor>p2\<rfloor>"
  have p1n: "p1 \<le> real (length s - 1)" and p2z: "0 \<le> p2" using assms by linarith+
  have l12: "l1 \<le> l2" unfolding l1_def l2_def using assms(4) by (simp add: floor_mono nat_mono)
  have l2n: "l2 \<le> length s - 1"
    unfolding l2_def using interpolate_bounds(3) [OF assms(1,2) p2z assms(5)] .
  show ?thesis
  proof (cases "l1 = l2")
    case True
    define h where "h = min (l1 + 1) (length s - 1)"
    have "0 < length s" using assms(2) by simp
    then have hn: "h < length s" unfolding h_def by arith
    have "l1 \<le> h" unfolding h_def using l2n True by simp
    then have d: "s ! l1 \<le> s ! h" using assms(1) hn by (intro sorted_nth_mono)
    have P1: "interpolate s p1 = s ! l1 + (s ! h - s ! l1) * (p1 - real l1)"
      by (simp add: interpolate_def Let_def l1_def h_def)
    have P2: "interpolate s p2 = s ! l1 + (s ! h - s ! l1) * (p2 - real l1)"
      using True by (simp add: interpolate_def Let_def l1_def l2_def h_def)
    have "(s ! h - s ! l1) * (p1 - real l1) \<le> (s ! h - s ! l1) * (p2 - real l1)"
      using d assms(4) by (intro mult_left_mono) simp_all
    then show ?thesis unfolding P1 P2 by simp
  next
    case False
    with l12 have lt: "l1 + 1 \<le> l2" by simp
    with l2n have "min (l1 + 1) (length s - 1) = l1 + 1" by simp
    with interpolate_bounds(2) [OF assms(1,2,3) p1n]
    have a: "interpolate s p1 \<le> s ! (l1 + 1)" by (simp add: l1_def)
    have "l2 < length s" using l2n assms(2) by (cases s) simp_all
    with assms(1) lt have b: "s ! (l1 + 1) \<le> s ! l2" by (intro sorted_nth_mono)
    have c: "s ! l2 \<le> interpolate s p2"
      unfolding l2_def using interpolate_bounds(1) [OF assms(1,2) p2z assms(5)] .
    from a b c show ?thesis by linarith
  qed
qed

lemma percentile_mono:
  assumes "xs \<noteq> []" "0 \<le> q1" "q1 \<le> q2" "q2 \<le> 100"
  shows "percentile xs q1 \<le> percentile xs q2"
proof -
  have n: "0 \<le> real (length xs - 1)" by simp
  have "length (sort xs) \<noteq> 0" using assms(1) by simp
  then have s: "sorted (sort xs)" "sort xs \<noteq> []" by (simp, fastforce)
  have a: "0 \<le> q1 / 100 * real (length xs - 1)" using assms(2) by simp
  have b: "q1 / 100 * real (length xs - 1) \<le> q2 / 100 * real (length xs - 1)"
    using assms(3) n by (intro mult_right_mono) simp_all
  have "q2 / 100 * real (length xs - 1) \<le> 1 * real (length xs - 1)"
    using assms(4) n by (intro mult_right_mono) simp_all
  then have c: "q2 / 100 * real (length xs - 1) \<le> real (length (sort xs) - 1)" by simp
  show ?thesis unfolding percentile_def
    using interpolate_mono [OF s a b c] by simp
qed

lemma np_lerp_Fin: "np_lerp (Fin a) (Fin b) t = Fin (a + (b - a) * t)"
  by (simp add: np_lerp_def Let_def algebra_simps)

lemma np_percentile_Fin:
  assumes "xs \<noteq> []" "0 \<le> q" "q \<le> 100"
  shows "np_percentile (map Fin xs) q = Inr (Fin (percentile xs q))"
proof -
  define n where "n = length xs"
  define pos where "pos = real (n - 1) * (q / 100)"
  have n: "0 < n" using assms(1) by (simp add: n_def)
  have len: "length (sort xs) = n" by (simp add: n_def)
  have p0: "0 \<le> pos" unfolding pos_def using assms(2) by simp
  have "pos \<le> real (n - 1) * 1"
    unfolding pos_def using assms(3) by (intro mult_left_mono) simp_all
  then have p1: "pos \<le> real (n - 1)" by simp
  have P: "percentile xs q = interpolate (sort xs) pos"
    by (simp add: percentile_def pos_def n_def mult.commute)
  have ne: "map Fin xs \<noteq> []" using assms(1) by simp
  have nonan: "NaN \<notin> set (map Fin xs)" by simp
  have base: "np_percentile (map Fin xs) q =
    Inr (np_lerp (map Fin (sort xs) ! (if real (n - 1) \<le> pos then n - 1 else nat \<lfloor>pos\<rfloor>))
           (map Fin (sort xs) ! (if real (n - 1) \<le> pos then n - 1 else nat \<lfloor>pos\<rfloor> + 1))
           (if real (n - 1) \<le> pos then pos + 1 else pos - real (nat \<lfloor>pos\<rfloor>)))"
    unfolding np_percentile_def Let_def length_map n_def [symmetric] pos_def [symmetric]
      fl_sort_Fin
    using ne nonan assms(2,3) by simp
  show ?thesis
  proof (cases "real (n - 1) \<le> pos")
    case True
    with p1 have e: "pos = real (n - 1)" by simp
    have last: "n - 1 < length (sort xs)" using n len by simp
    have "np_percentile (map Fin xs) q =
      Inr (np_lerp (map Fin (sort xs) ! (n - 1)) (map Fin (sort xs) ! (n - 1)) (pos + 1))"
      unfolding base using True by simp
    also have "\<dots> = Inr (Fin (sort xs ! (n - 1)))"
      using last by (simp add: np_lerp_Fin)
    also have "sort xs ! (n - 1) = interpolate (sort xs) pos"
      unfolding e by (simp add: interpolate_def Let_def len)
    finally show ?thesis by (simp add: P)
  next
    case False
    define lo where "lo = nat \<lfloor>pos\<rfloor>"
    from False have lt: "pos < real (n - 1)" by simp
    have "real lo \<le> pos" unfolding lo_def using p0 by simp
    with lt have "real lo < real (n - 1)" by linarith
    then have lo: "lo + 1 \<le> n - 1" by simp
    then have idx: "lo < length (sort xs)" "lo + 1 < length (sort xs)"
      using n len by simp_all
    have m: "min (lo + 1) (length (sort xs) - 1) = lo + 1" using lo len by simp
    have "np_percentile (map Fin xs) q =
      Inr (np_lerp (map Fin (sort xs) ! lo) (map Fin (sort xs) ! (lo + 1)) (pos - real lo))"
      unfolding base lo_def using False by simp
    also have "\<dots> = Inr (Fin (sort xs ! lo + (sort xs ! (lo + 1) - sort xs ! lo) * (pos - real lo)))"
      using idx by (simp add: np_lerp_Fin)
    also have "sort xs ! lo + (sort xs ! (lo + 1) - sort xs ! lo) * (pos - real lo) =
      interpolate (sort xs) pos"
      unfolding interpolate_def Let_def lo_def [symmetric] m by simp
    finally show ?thesis by (simp add: P)
  qed
qed
section \<open>Theorems: outlier thresholds\<close>

lemma np_abs_map_Fin: "map np_abs (map Fin ds) = map Fin (map abs ds)"
  by simp

lemma PA2_of_diffs_Fin:
  assumes "ds \<noteq> []"
  shows "PA2_of_diffs (map Fin ds) =
    Inr \<lparr>design = Fin (percentile (map abs ds) 90), minimum = Fin (percentile (map abs ds) 80),
         stretch = Fin (percentile (map abs ds) 95), PF1 = PF1_table\<rparr>"
proof -
  have ne: "map abs ds \<noteq> []" using assms by simp
  have p: "np_percentile (map Fin (map abs ds)) 80 = Inr (Fin (percentile (map abs ds) 80))"
    "np_percentile (map Fin (map abs ds)) 90 = Inr (Fin (percentile (map abs ds) 90))"
    "np_percentile (map Fin (map abs ds)) 95 = Inr (Fin (percentile (map abs ds) 95))"
    by (rule np_percentile_Fin [OF ne]; simp)+
  have k: "dict_get PF1_table ''minimum'' = Inr 20" "dict_get PF1_table ''design'' = Inr 10"
    "dict_get PF1_table ''stretch'' = Inr 5"
    by (simp_all add: dict_get_def PF1_table_def)
  show ?thesis
    unfolding PA2_of_diffs_def k np_abs_map_Fin by (simp add: Let_def p del: map_map)
qed

text \<open>
  The order claimed for the thresholds of \<open>calcPA2\<close>, stretch below design below
  minimum, fails: for two groups whose differences are 0 and 1000 the thresholds are
  800 (minimum, the 80th percentile), 900 (design, the 90th) and 950 (stretch, the 95th).
\<close>

theorem calcPA2_claimed_order_counterexample:
  "fst (calcPA2 [[Fin 0, Fin 0], [Fin 0, Fin (sqrt 2)]] (\<lambda>k. 0)) =
     Inr \<lparr>design = Fin 900, minimum = Fin 800, stretch = Fin 950, PF1 = PF1_table\<rparr> \<and>
   \<not> fl_le (Fin 950) (Fin 900) \<and> \<not> fl_le (Fin 900) (Fin 800)"
proof -
  have agg: "aggregate_random getRandomDiffRmsInMas [[Fin 0, Fin 0], [Fin 0, Fin (sqrt 2)]] (\<lambda>k. 0) =
    (Inr (map Fin [0, 1000]), \<lambda>k. 0)"
    by (simp add: getRandomDiffRmsInMas_def getRandomDiff_def shuffle_two)
  have s: "sort [0, 1000 :: real] = [0, 1000]" by simp
  have p: "percentile [0, 1000] 80 = 800" "percentile [0, 1000] 90 = 900"
    "percentile [0, 1000] 95 = 950"
    by (simp_all add: percentile_def interpolate_def s)
  have "PA2_of_diffs (map Fin [0, 1000]) =
    Inr \<lparr>design = Fin 900, minimum = Fin 800, stretch = Fin 950, PF1 = PF1_table\<rparr>"
    using PA2_of_diffs_Fin [of "[0, 1000]"] p by simp
  then show ?thesis unfolding calcPA2_def agg by simp
qed

text \<open>
  C2 (amended). For every non-empty array of finite per-group differences, the three
  thresholds returned by \<open>calcPA2\<close> are the 80th, 90th and 95th percentiles of the
  absolute differences and satisfy minimum \<open>\<le>\<close> design \<open>\<le>\<close> stretch: the threshold
  paired with the outlier fraction 20% is no larger than the one paired with 10%, which
  is no larger than the one paired with 5%.
\<close>

theorem calcPA2_thresholds_ordered:
  assumes "ds \<noteq> []"
    and "aggregate_random getRandomDiffRmsInMas groupView s = (Inr (map Fin ds), s')"
  shows "\<exists>r. calcPA2 groupView s = (Inr r, s') \<and>
     minimum r = Fin (percentile (map abs ds) 80) \<and>
     design r = Fin (percentile (map abs ds) 90) \<and>
     stretch r = Fin (percentile (map abs ds) 95) \<and>
     fl_le (minimum r) (design r) \<and> fl_le (design r) (stretch r)"
proof -
  have ne: "map abs ds \<noteq> []" using assms(1) by simp
  have a: "percentile (map abs ds) 80 \<le> percentile (map abs ds) 90"
    using ne by (intro percentile_mono) simp_all
  have b: "percentile (map abs ds) 90 \<le> percentile (map abs ds) 95"
    using ne by (intro percentile_mono) simp_all
  have "calcPA2 groupView s =
    (Inr \<lparr>design = Fin (percentile (map abs ds) 90), minimum = Fin (percentile (map abs ds) 80),
         stretch = Fin (percentile (map abs ds) 95), PF1 = PF1_table\<rparr>, s')"
    unfolding calcPA2_def assms(2) by (simp add: PA2_of_diffs_Fin [OF assms(1)])
  with a b show ?thesis by simp
qed

theorem calcPA2_thresholds_ordered_witness:
  "[0, 1000 :: real] \<noteq> [] \<and>
   aggregate_random getRandomDiffRmsInMas [[Fin 0, Fin 0], [Fin 0, Fin (sqrt 2)]] (\<lambda>k. 0) =
     (Inr (map Fin [0, 1000]), \<lambda>k. 0) \<and>
   (\<exists>r. calcPA2 [[Fin 0, Fin 0], [Fin 0, Fin (sqrt 2)]] (\<lambda>k. 0) = (Inr r, \<lambda>k. 0) \<and>
     fl_le (minimum r) (design r) \<and> fl_le (design r) (stretch r))"
proof -
  have ne: "[0, 1000 :: real] \<noteq> []" by simp
  have agg: "aggregate_random getRandomDiffRmsInMas [[Fin 0, Fin 0], [Fin 0, Fin (sqrt 2)]] (\<lambda>k. 0) =
    (Inr (map Fin [0, 1000]), \<lambda>k. 0)"
    by (simp add: getRandomDiffRmsInMas_def getRandomDiff_def shuffle_two)
  from calcPA2_thresholds_ordered [OF ne agg] ne agg show ?thesis by blast
qed

section \<open>Theorems: width estimators\<close>

lemma foldl_fl_add_Fin: "foldl fl_add (Fin a) (map Fin ys) = Fin (a + sum_list ys)"
  by (induction ys arbitrary: a) (simp_all add: add.assoc)

lemma np_sum_Fin: "np_sum (map Fin ys) = Fin (sum_list ys)"
  by (simp add: np_sum_def foldl_fl_add_Fin)

lemma np_mean_Fin: "ys \<noteq> [] \<Longrightarrow> np_mean (map Fin ys) = Fin (mean ys)"
  by (simp add: np_mean_def np_sum_Fin mean_def)

lemma np_mean_empty: "np_mean [] = NaN"
  by (simp add: np_mean_def np_sum_def)

lemma mean_squares_nonneg: "0 \<le> mean (map (\<lambda>x. x\<^sup>2) xs)"
  unfolding mean_def by (intro divide_nonneg_nonneg sum_list_nonneg) auto

text \<open>
  On the empty array \<open>computeWidths\<close> does not return NaN: the mean of the squares is
  NaN, which \<open>math.sqrt\<close> passes through, and \<open>np.percentile\<close> then raises
  \<open>IndexError\<close>.
\<close>

theorem computeWidths_empty_counterexample:
  "computeWidths (\<lambda>p. 0.6745) [] = Inl IndexError \<and>
   computeWidths (\<lambda>p. 0.6745) [] \<noteq> Inr (NaN, NaN)"
  by (simp add: computeWidths_def np_mean_empty np_percentile_def)

text \<open>
  C3 (amended). For every non-empty array of finite numbers, \<open>computeWidths\<close> returns
  the pair of the root of the mean of the squared elements and of the difference of the
  75th and 25th percentiles over twice \<open>norm_ppf 0.75\<close> (a nonzero value of the external
  inverse normal distribution function); on the empty array it raises \<open>IndexError\<close>.
\<close>

theorem computeWidths_rms_iqr:
  "(xs \<noteq> [] \<and> norm_ppf 0.75 \<noteq> 0 \<longrightarrow>
      computeWidths norm_ppf (map Fin xs) =
        Inr (Fin (sqrt (sum_list (map (\<lambda>x. x\<^sup>2) xs) / real (length xs))),
             Fin ((percentile xs 75 - percentile xs 25) / (2 * norm_ppf 0.75)))) \<and>
   computeWidths norm_ppf [] = Inl IndexError"
proof (intro conjI impI)
  assume h: "xs \<noteq> [] \<and> norm_ppf 0.75 \<noteq> 0"
  then have ne: "map (\<lambda>x. x\<^sup>2) xs \<noteq> []" by simp
  have sq: "map (\<lambda>x. fl_mul x x) (map Fin xs) = map Fin (map (\<lambda>x. x\<^sup>2) xs)"
    by (simp add: power2_eq_square)
  have m: "np_mean (map (\<lambda>x. fl_mul x x) (map Fin xs)) = Fin (mean (map (\<lambda>x. x\<^sup>2) xs))"
    unfolding sq by (rule np_mean_Fin [OF ne])
  have r: "math_sqrt (Fin (mean (map (\<lambda>x. x\<^sup>2) xs))) = Inr (Fin (sqrt (mean (map (\<lambda>x. x\<^sup>2) xs))))"
    using mean_squares_nonneg [of xs] by (simp add: not_less)
  have p: "np_percentile (map Fin xs) 75 = Inr (Fin (percentile xs 75))"
    "np_percentile (map Fin xs) 25 = Inr (Fin (percentile xs 25))"
    using h by (simp_all add: np_percentile_Fin)
  have "computeWidths norm_ppf (map Fin xs) =
        Inr (Fin (sqrt (mean (map (\<lambda>x. x\<^sup>2) xs))),
             Fin ((percentile xs 75 - percentile xs 25) / (norm_ppf 0.75 * 2)))"
    unfolding computeWidths_def m r p using h by (simp add: Let_def)
  then show "computeWidths norm_ppf (map Fin xs) =
        Inr (Fin (sqrt (sum_list (map (\<lambda>x. x\<^sup>2) xs) / real (length xs))),
             Fin ((percentile xs 75 - percentile xs 25) / (2 * norm_ppf 0.75)))"
    by (simp add: mean_def mult.commute)
next
  show "computeWidths norm_ppf [] = Inl IndexError"
    by (simp add: computeWidths_def np_mean_empty np_percentile_def)
qed

theorem computeWidths_rms_iqr_witness:
  "[3, 4 :: real] \<noteq> [] \<and> (\<lambda>p :: real. 0.6745 :: real) 0.75 \<noteq> 0 \<and>
   computeWidths (\<lambda>p. 0.6745) (map Fin [3, 4]) =
     Inr (Fin (sqrt (25 / 2)), Fin (0.5 / 1.349))"
proof -
  have s: "sort [3, 4 :: real] = [3, 4]" by simp
  have p: "percentile [3, 4] 75 = 3.75" "percentile [3, 4] 25 = 3.25"
    by (simp_all add: percentile_def interpolate_def s)
  from computeWidths_rms_iqr [of "[3, 4]" "\<lambda>p. 0.6745"] p
  show ?thesis by simp
qed

section \<open>Theorems: the magnitude filter\<close>

lemma map_nth_filter_upt:
  "map (\<lambda>k. xs ! k) (filter (\<lambda>k. P (xs ! k)) [0..<length xs]) = filter P xs"
proof -
  have "filter P (map (\<lambda>k. xs ! k) [0..<length xs]) = filter P xs"
    by (simp add: map_nth)
  then show ?thesis by (simp add: filter_map comp_def)
qed

lemma filter_isfinite: "filter isfinite xs = map Fin (finite_values xs)"
  by (induction xs rule: finite_values.induct) simp_all

lemma np_median_Fin: "np_median (map Fin ys) = (if ys = [] then NaN else Fin (median ys))"
proof (cases "ys = []")
  case True
  then show ?thesis by (simp add: np_median_def)
next
  case False
  define n where "n = length ys"
  have n: "0 < n" using False by (simp add: n_def)
  have len: "length (sort ys) = n" by (simp add: n_def)
  show ?thesis
  proof (cases "odd n")
    case True
    have "n div 2 < n" using n by simp
    then show ?thesis using False True len
      by (simp add: np_median_def median_def Let_def fl_sort_Fin n_def)
  next
    case even: False
    have a: "n div 2 < n" using n by simp
    then have b: "n div 2 - 1 < n" by simp
    have m: "np_mean [Fin (sort ys ! (n div 2 - 1)), Fin (sort ys ! (n div 2))] =
      Fin ((sort ys ! (n div 2 - 1) + sort ys ! (n div 2)) / 2)"
      using np_mean_Fin [of "[sort ys ! (n div 2 - 1), sort ys ! (n div 2)]"]
      by (simp add: mean_def)
    have "np_median (map Fin ys) =
      np_mean [map Fin (sort ys) ! (n div 2 - 1), map Fin (sort ys) ! (n div 2)]"
      using False even by (simp add: np_median_def Let_def fl_sort_Fin n_def)
    also have "\<dots> = Fin ((sort ys ! (n div 2 - 1) + sort ys ! (n div 2)) / 2)"
      using a b len m by simp
    finally show ?thesis using False even by (simp add: median_def Let_def n_def)
  qed
qed

lemma magInRange_Fin:
  "magInRange (Fin lo, Fin hi) cat =
     (finite_values (map base_PsfFlux_mag cat) \<noteq> [] \<and>
      lo \<le> median (finite_values (map base_PsfFlux_mag cat)) \<and>
      median (finite_values (map base_PsfFlux_mag cat)) < hi)"
proof -
  define mag where "mag = map base_PsfFlux_mag cat"
  have "map (\<lambda>k. mag ! k) (filter (\<lambda>k. isfinite (mag ! k)) [0..<length mag]) =
    map Fin (finite_values mag)"
    by (simp only: map_nth_filter_upt filter_isfinite)
  then show ?thesis
    unfolding magInRange_def mag_def [symmetric] Let_def
    by (simp add: np_median_Fin)
qed

text \<open>
  C5. \<open>calcAMx\<close> keeps a group exactly when it has a finite magnitude and the median
  \<open>m\<close> of its finite magnitudes satisfies \<open>magRange[0] \<le> m < magRange[1]\<close>, the
  lower bound included and the upper bound excluded; the result depends on the groups
  kept only; and without a \<open>magRange\<close> argument the bounds are 17.0 and 21.5.
\<close>

theorem calcAMx_magnitude_filter:
  "magInRange (Fin lo, Fin hi) cat =
     (finite_values (map base_PsfFlux_mag cat) \<noteq> [] \<and>
      lo \<le> median (finite_values (map base_PsfFlux_mag cat)) \<and>
      median (finite_values (map base_PsfFlux_mag cat)) < hi) \<and>
   groupViewInMagRange (Fin lo, Fin hi) groupView =
     filter (\<lambda>cat. finite_values (map base_PsfFlux_mag cat) \<noteq> [] \<and>
                   lo \<le> median (finite_values (map base_PsfFlux_mag cat)) \<and>
                   median (finite_values (map base_PsfFlux_mag cat)) < hi) groupView \<and>
   calcAMx averageCoord groupView Dv w None =
     calcAMx averageCoord groupView Dv w (Some (Fin 17.0, Fin 21.5)) \<and>
   calcAMx averageCoord groupView Dv w (Some (Fin lo, Fin hi)) =
     calcAMx averageCoord (groupViewInMagRange (Fin lo, Fin hi) groupView) Dv w
       (Some (Fin lo, Fin hi))"
proof (intro conjI)
  show "magInRange (Fin lo, Fin hi) cat =
     (finite_values (map base_PsfFlux_mag cat) \<noteq> [] \<and>
      lo \<le> median (finite_values (map base_PsfFlux_mag cat)) \<and>
      median (finite_values (map base_PsfFlux_mag cat)) < hi)"
    by (rule magInRange_Fin)
  show "groupViewInMagRange (Fin lo, Fin hi) groupView =
     filter (\<lambda>cat. finite_values (map base_PsfFlux_mag cat) \<noteq> [] \<and>
                   lo \<le> median (finite_values (map base_PsfFlux_mag cat)) \<and>
                   median (finite_values (map base_PsfFlux_mag cat)) < hi) groupView"
    unfolding groupViewInMagRange_def by (rule filter_cong) (simp_all only: magInRange_Fin)
  show "calcAMx averageCoord groupView Dv w None =
     calcAMx averageCoord groupView Dv w (Some (Fin 17.0, Fin 21.5))"
    by (simp add: calcAMx_def)
  have "groupViewInMagRange (Fin lo, Fin hi) (groupViewInMagRange (Fin lo, Fin hi) groupView) =
    groupViewInMagRange (Fin lo, Fin hi) groupView"
    by (simp add: groupViewInMagRange_def)
  then show "calcAMx averageCoord groupView Dv w (Some (Fin lo, Fin hi)) =
     calcAMx averageCoord (groupViewInMagRange (Fin lo, Fin hi) groupView) Dv w
       (Some (Fin lo, Fin hi))"
    by (simp add: calcAMx_def)
qed

section \<open>Theorems: the annulus test\<close>

lemma annulusOf_Fin: "annulusOf (Fin d) (Fin w) = (Fin (d - w / 2), Fin (d + w / 2))"
  by (simp add: annulusOf_def)

lemma arcminToRadians_Fin: "arcminToRadians (Fin x) = Fin (x / 60 * (pi / 180))"
  by (simp add: arcminToRadians_def np_deg2rad_def)

lemma objectsInAnnulus_iff:
  "k \<in> set (objectsInAnnulus (lo, hi) meanRa meanDec obj1) \<longleftrightarrow>
     k < length meanRa - (obj1 + 1) \<and> k < length meanDec - (obj1 + 1) \<and>
     fl_le lo (sphDist (meanRa ! obj1) (meanDec ! obj1)
                 (meanRa ! (obj1 + 1 + k)) (meanDec ! (obj1 + 1 + k))) \<and>
     fl_lt (sphDist (meanRa ! obj1) (meanDec ! obj1)
                 (meanRa ! (obj1 + 1 + k)) (meanDec ! (obj1 + 1 + k))) hi"
proof -
  define dist where "dist = map (\<lambda>(r, d). sphDist (meanRa ! obj1) (meanDec ! obj1) r d)
                   (zip (drop (obj1 + 1) meanRa) (drop (obj1 + 1) meanDec))"
  have len: "length dist = min (length meanRa - (obj1 + 1)) (length meanDec - (obj1 + 1))"
    by (simp add: dist_def)
  have nth: "dist ! k = sphDist (meanRa ! obj1) (meanDec ! obj1)
                 (meanRa ! (obj1 + 1 + k)) (meanDec ! (obj1 + 1 + k))"
    if "k < length dist"
  proof -
    from that have a: "k < length meanRa - (obj1 + 1)" "k < length meanDec - (obj1 + 1)"
      by (simp_all add: len)
    then have "obj1 + 1 \<le> length meanRa" "obj1 + 1 \<le> length meanDec" by simp_all
    then have "drop (obj1 + 1) meanRa ! k = meanRa ! (obj1 + 1 + k)"
      "drop (obj1 + 1) meanDec ! k = meanDec ! (obj1 + 1 + k)"
      by simp_all
    with a show ?thesis by (simp add: dist_def)
  qed
  have "k \<in> set (objectsInAnnulus (lo, hi) meanRa meanDec obj1) \<longleftrightarrow>
    k < length dist \<and> fl_le lo (dist ! k) \<and> fl_lt (dist ! k) hi"
    unfolding objectsInAnnulus_def dist_def [symmetric] Let_def by auto
  then show ?thesis using nth len by auto
qed

text \<open>
  C10. The annulus test of \<open>calcAMx\<close> is half-open. For finite \<open>D\<close> and \<open>width\<close>
  the index \<open>k\<close> of the object at position \<open>obj1 + 1 + k\<close> is selected for
  \<open>obj1\<close> exactly when the separation \<open>sep\<close> of their mean positions satisfies
  \<open>D - width/2 \<le> sep < D + width/2\<close>, the bounds converted from arc minutes to
  radians: a separation equal to the upper bound is excluded, and one equal to the lower
  bound is included (for a positive width).
\<close>

theorem annulus_test_half_open:
  "(k \<in> set (objectsInAnnulus
               (arcminToRadians (fst (annulusOf (Fin d) (Fin w))),
                arcminToRadians (snd (annulusOf (Fin d) (Fin w)))) meanRa meanDec obj1) \<longleftrightarrow>
     k < length meanRa - (obj1 + 1) \<and> k < length meanDec - (obj1 + 1) \<and>
     fl_le (Fin ((d - w / 2) / 60 * (pi / 180)))
       (sphDist (meanRa ! obj1) (meanDec ! obj1)
          (meanRa ! (obj1 + 1 + k)) (meanDec ! (obj1 + 1 + k))) \<and>
     fl_lt (sphDist (meanRa ! obj1) (meanDec ! obj1)
              (meanRa ! (obj1 + 1 + k)) (meanDec ! (obj1 + 1 + k)))
       (Fin ((d + w / 2) / 60 * (pi / 180)))) \<and>
   (sphDist (meanRa ! obj1) (meanDec ! obj1)
      (meanRa ! (obj1 + 1 + k)) (meanDec ! (obj1 + 1 + k)) = Fin ((d + w / 2) / 60 * (pi / 180)) \<longrightarrow>
    k \<notin> set (objectsInAnnulus
               (arcminToRadians (fst (annulusOf (Fin d) (Fin w))),
                arcminToRadians (snd (annulusOf (Fin d) (Fin w)))) meanRa meanDec obj1)) \<and>
   (0 < w \<and> k < length meanRa - (obj1 + 1) \<and> k < length meanDec - (obj1 + 1) \<and>
    sphDist (meanRa ! obj1) (meanDec ! obj1)
      (meanRa ! (obj1 + 1 + k)) (meanDec ! (obj1 + 1 + k)) = Fin ((d - w / 2) / 60 * (pi / 180)) \<longrightarrow>
    k \<in> set (objectsInAnnulus
               (arcminToRadians (fst (annulusOf (Fin d) (Fin w))),
                arcminToRadians (snd (annulusOf (Fin d) (Fin w)))) meanRa meanDec obj1))"
  by (simp add: objectsInAnnulus_iff annulusOf_Fin arcminToRadians_Fin)

theorem annulus_test_half_open_witness:
  "(0::real) < 2 \<and> (0::nat) < length [Fin 0, Fin 0] - (0 + 1) \<and>
   sphDist ([Fin 0, Fin 0] ! 0) ([Fin 0, Fin 0] ! 0)
      ([Fin 0, Fin 0] ! (0 + 1 + 0)) ([Fin 0, Fin 0] ! (0 + 1 + 0)) =
     Fin ((1 - 2 / 2) / 60 * (pi / 180)) \<and>
   0 \<in> set (objectsInAnnulus
               (arcminToRadians (fst (annulusOf (Fin 1) (Fin 2))),
                arcminToRadians (snd (annulusOf (Fin 1) (Fin 2)))) [Fin 0, Fin 0] [Fin 0, Fin 0] 0) \<and>
   sphDist ([Fin 0, Fin 0] ! 0) ([Fin 0, Fin 0] ! 0)
      ([Fin 0, Fin 0] ! (0 + 1 + 0)) ([Fin 0, Fin 0] ! (0 + 1 + 0)) =
     Fin ((- 1 + 2 / 2) / 60 * (pi / 180)) \<and>
   0 \<notin> set (objectsInAnnulus
               (arcminToRadians (fst (annulusOf (Fin (- 1)) (Fin 2))),
                arcminToRadians (snd (annulusOf (Fin (- 1)) (Fin 2)))) [Fin 0, Fin 0] [Fin 0, Fin 0] 0)"
proof -
  have s: "sphDist (Fin 0) (Fin 0) (Fin 0) (Fin 0) = Fin 0"
    by (simp add: sphDist_Fin haversine_def)
  from annulus_test_half_open [of 0 1 2 "[Fin 0, Fin 0]" "[Fin 0, Fin 0]" 0]
    annulus_test_half_open [of 0 "- 1" 2 "[Fin 0, Fin 0]" "[Fin 0, Fin 0]" 0] s
  show ?thesis by simp
qed

section \<open>Facts about the samples of calcAMx\<close>

lemma aggregate_total:
  "\<forall>g \<in> set gs. f g = Inr (h g) \<Longrightarrow> aggregate f gs = Inr (map h gs)"
  by (induction gs) simp_all

lemma averageRaFromCat_eq:
  "averageRaFromCat averageCoord cat =
     Inr (fst (averageCoord (zip (map coord_ra cat) (map coord_dec cat))))"
  by (simp add: averageRaFromCat_def averageRaDecFromCat_def averageRaDec_def split_beta)

lemma averageDecFromCat_eq:
  "averageDecFromCat averageCoord cat =
     Inr (snd (averageCoord (zip (map coord_ra cat) (map coord_dec cat))))"
  by (simp add: averageDecFromCat_def averageRaDecFromCat_def averageRaDec_def split_beta)

lemma list_all_isfinite: "list_all isfinite xs \<Longrightarrow> xs = map Fin (finite_values xs)"
  using filter_isfinite [of xs] by (simp add: list_all_iff)

lemma sphDist_isfinite:
  "isfinite a \<Longrightarrow> isfinite b \<Longrightarrow> isfinite c \<Longrightarrow> isfinite d \<Longrightarrow> isfinite (sphDist a b c d)"
  by (cases a; cases b; cases c; cases d) (simp_all add: sphDist_Fin)

lemma np_std_Fin:
  assumes "ds \<noteq> []"
  shows "np_std (map Fin ds) = Fin (std_dev ds)"
proof -
  have m: "np_mean (map Fin ds) = Fin (mean ds)" by (rule np_mean_Fin [OF assms])
  have dev: "map (\<lambda>x. np_square (np_abs (fl_sub x (Fin (mean ds))))) (map Fin ds) =
    map Fin (map (\<lambda>x. (x - mean ds)\<^sup>2) ds)"
    by simp
  have ne: "map (\<lambda>x. (x - mean ds)\<^sup>2) ds \<noteq> []" using assms by simp
  have nn: "0 \<le> mean (map (\<lambda>x. (x - mean ds)\<^sup>2) ds)"
    unfolding mean_def by (intro divide_nonneg_nonneg sum_list_nonneg) auto
  show ?thesis
    unfolding np_std_def m Let_def dev np_mean_Fin [OF ne]
    using nn by (simp add: std_dev_def not_less)
qed

lemma pairRmsDist_Fin:
  assumes "matchVisitComputeDistance (map visit g1) (map coord_ra g1) (map coord_dec g1)
          (map visit g2) (map coord_ra g2) (map coord_dec g2) = Inr (map Fin ds)"
  shows "pairRmsDist g1 g2 = Inr (if ds = [] then None else Some (Fin (std_dev ds)))"
proof (cases "ds = []")
  case True
  then show ?thesis by (simp add: pairRmsDist_def assms)
next
  case False
  have "map (\<lambda>k. map Fin ds ! k) (filter (\<lambda>k. isfinite (map Fin ds ! k)) [0..<length (map Fin ds)]) =
    filter isfinite (map Fin ds)"
    by (rule map_nth_filter_upt)
  also have "\<dots> = map Fin ds" by (simp add: filter_map comp_def)
  finally have fe: "map (\<lambda>k. map Fin ds ! k)
      (filter (\<lambda>k. isfinite (map Fin ds ! k)) [0..<length (map Fin ds)]) = map Fin ds" .
  have "length (filter (\<lambda>k. isfinite (map Fin ds ! k)) [0..<length (map Fin ds)]) = length ds"
    using arg_cong [OF fe, of length] by simp
  then have pos: "0 < length (filter (\<lambda>k. isfinite (map Fin ds ! k)) [0..<length (map Fin ds)])"
    using False by simp
  show ?thesis
    unfolding pairRmsDist_def assms ebind_Inr Let_def
    using False pos by (simp only: fe np_std_Fin [OF False] if_True if_False map_is_Nil_conv)
qed
lemma in_product_upt:
  "(i, j) \<in> set (List.product [0..<m] [0..<n]) \<Longrightarrow> i < m \<and> j < n"
  by simp

lemma matchVisit_shared:
  "matchVisitComputeDistance (map visit g1) (map coord_ra g1) (map coord_dec g1)
     (map visit g2) (map coord_ra g2) (map coord_dec g2) = Inr (map Fin (shared_distances g1 g2))"
proof -
  define v1 where "v1 = map visit g1"
  define r1 where "r1 = map coord_ra g1"
  define d1 where "d1 = map coord_dec g1"
  define v2 where "v2 = map visit g2"
  define r2 where "r2 = map coord_ra g2"
  define d2 where "d2 = map coord_dec g2"
  define pairs where "pairs = List.product [0..<length g1] [0..<length g2]"
  define res where "res = map (\<lambda>(i, j). sphDist (coord_ra (g1 ! i)) (coord_dec (g1 ! i))
                       (coord_ra (g2 ! j)) (coord_dec (g2 ! j)))
          (filter (\<lambda>(i, j). visit (g1 ! i) = visit (g2 ! j) \<and>
                     isfinite (coord_ra (g1 ! i)) \<and> isfinite (coord_dec (g1 ! i)) \<and>
                     isfinite (coord_ra (g2 ! j)) \<and> isfinite (coord_dec (g2 ! j))) pairs)"
  have a: "\<forall>i \<in> set [0..<length v1]. i < length r1 \<and> i < length d1"
    by (simp add: v1_def r1_def d1_def)
  have b: "length v2 \<le> length r2" "length v2 \<le> length d2"
    by (simp_all add: v2_def r2_def d2_def)
  have len: "length v1 = length g1" "length v2 = length g2" by (simp_all add: v1_def v2_def)
  have "matchVisitComputeDistance v1 r1 d1 v2 r2 d2 =
    Inr (map (\<lambda>(i, j). sphDist (r1 ! i) (d1 ! i) (r2 ! j) (d2 ! j))
          (filter (\<lambda>(i, j). matchedFinite v1 r1 d1 v2 r2 d2 i j) pairs))"
    unfolding matchVisitComputeDistance_def pairs_def len [symmetric]
    by (simp add: matchOuter_eq [OF a b] concat_map_filter_product)
  also have "filter (\<lambda>(i, j). matchedFinite v1 r1 d1 v2 r2 d2 i j) pairs =
    filter (\<lambda>(i, j). visit (g1 ! i) = visit (g2 ! j) \<and>
                     isfinite (coord_ra (g1 ! i)) \<and> isfinite (coord_dec (g1 ! i)) \<and>
                     isfinite (coord_ra (g2 ! j)) \<and> isfinite (coord_dec (g2 ! j))) pairs"
    by (rule filter_cong)
      (auto simp add: pairs_def matchedFinite_def v1_def r1_def d1_def v2_def r2_def d2_def)
  also have "map (\<lambda>(i, j). sphDist (r1 ! i) (d1 ! i) (r2 ! j) (d2 ! j))
          (filter (\<lambda>(i, j). visit (g1 ! i) = visit (g2 ! j) \<and>
                     isfinite (coord_ra (g1 ! i)) \<and> isfinite (coord_dec (g1 ! i)) \<and>
                     isfinite (coord_ra (g2 ! j)) \<and> isfinite (coord_dec (g2 ! j))) pairs) = res"
    unfolding res_def
    by (rule map_cong) (auto simp add: pairs_def r1_def d1_def r2_def d2_def)
  finally have eq: "matchVisitComputeDistance v1 r1 d1 v2 r2 d2 = Inr res" .
  have "list_all isfinite res"
    unfolding res_def by (auto simp add: list_all_iff intro: sphDist_isfinite)
  then have "res = map Fin (finite_values res)" by (rule list_all_isfinite)
  moreover have "finite_values res = shared_distances g1 g2"
    by (simp add: res_def shared_distances_def pairs_def)
  ultimately show ?thesis
    using eq unfolding v1_def r1_def d1_def v2_def r2_def d2_def by simp
qed
lemma radiansToMilliarcsec_Fin:
  "radiansToMilliarcsec (Fin v) = Fin (v * (180 / pi) * 3600 * 1000)"
  by (simp add: radiansToMilliarcsec_def np_rad2deg_def)

lemma sphDist_equator:
  assumes "\<bar>r1 - r2\<bar> \<le> pi"
  shows "sphDist (Fin r1) (Fin 0) (Fin r2) (Fin 0) = Fin \<bar>r1 - r2\<bar>"
proof -
  define x where "x = (r1 - r2) / 2"
  have x: "\<bar>x\<bar> \<le> pi / 2" using assms by (simp add: x_def)
  have h: "haversine r1 0 r2 0 = (sin x)\<^sup>2" by (simp add: haversine_def x_def)
  have ax: "0 \<le> \<bar>x\<bar>" "\<bar>x\<bar> \<le> pi" "- (pi / 2) \<le> \<bar>x\<bar>"
    using x pi_ge_zero by linarith+
  have "sqrt ((sin x)\<^sup>2) = \<bar>sin x\<bar>" by simp
  also have "\<dots> = sin \<bar>x\<bar>"
  proof (cases "0 \<le> x")
    case True
    with ax have "0 \<le> sin x" by (intro sin_ge_zero) simp_all
    with True show ?thesis by simp
  next
    case False
    then have e: "\<bar>x\<bar> = - x" by simp
    from ax have "0 \<le> sin \<bar>x\<bar>" by (intro sin_ge_zero)
    then show ?thesis unfolding e by simp
  qed
  finally have s: "sqrt (haversine r1 0 r2 0) = sin \<bar>x\<bar>" by (simp add: h)
  have "arcsin (sin \<bar>x\<bar>) = \<bar>x\<bar>"
    using x ax(3) by (intro arcsin_sin)
  then show ?thesis by (simp add: sphDist_Fin s x_def)
qed


lemma example_seps:
  "sphDist (Fin 0) (Fin 0) (Fin (pi / 2160)) (Fin 0) = Fin (pi / 2160)"
  "sphDist (Fin 0) (Fin 0) (Fin (pi / 1080)) (Fin 0) = Fin (pi / 1080)"
  "sphDist (Fin (pi / 2160)) (Fin 0) (Fin (pi / 1080)) (Fin 0) = Fin (pi / 2160)"
  "sphDist (Fin (pi / 2160)) (Fin 0) (Fin 0) (Fin 0) = Fin (pi / 2160)"
  "sphDist (Fin 0) (Fin 0) (Fin 0) (Fin 0) = Fin 0"
proof -
  have a: "\<bar>0 - pi / 2160\<bar> = pi / 2160" "\<bar>0 - pi / 1080\<bar> = pi / 1080"
    "\<bar>pi / 2160 - pi / 1080\<bar> = pi / 2160" "\<bar>pi / 2160 - 0\<bar> = pi / 2160"
    using pi_gt_zero by (simp_all add: abs_if)
  have b: "pi / 2160 \<le> pi" "pi / 1080 \<le> pi" using pi_gt_zero by simp_all
  show "sphDist (Fin 0) (Fin 0) (Fin (pi / 2160)) (Fin 0) = Fin (pi / 2160)"
    using sphDist_equator [of 0 "pi / 2160"] a b by simp
  show "sphDist (Fin 0) (Fin 0) (Fin (pi / 1080)) (Fin 0) = Fin (pi / 1080)"
    using sphDist_equator [of 0 "pi / 1080"] a b by simp
  show "sphDist (Fin (pi / 2160)) (Fin 0) (Fin (pi / 1080)) (Fin 0) = Fin (pi / 2160)"
    using sphDist_equator [of "pi / 2160" "pi / 1080"] a b by simp
  show "sphDist (Fin (pi / 2160)) (Fin 0) (Fin 0) (Fin 0) = Fin (pi / 2160)"
    using sphDist_equator [of "pi / 2160" 0] a b by simp
  show "sphDist (Fin 0) (Fin 0) (Fin 0) (Fin 0) = Fin 0"
    using sphDist_equator [of 0 0] by simp
qed

lemma example_annulus:
  "arcminToRadians (fst (annulusOf (Fin 5) (Fin 2))) = Fin (pi / 2700)"
  "arcminToRadians (snd (annulusOf (Fin 5) (Fin 2))) = Fin (pi / 1800)"
  by (simp_all add: annulusOf_Fin arcminToRadians_Fin)





lemma std_dev_pair: "std_dev [a, b] = \<bar>a - b\<bar> / 2"
proof -
  have m: "mean [a, b] = (a + b) / 2" by (simp add: mean_def)
  have d1: "a - (a + b) / 2 = (a - b) / 2" by (simp add: field_simps)
  have d2: "b - (a + b) / 2 = - ((a - b) / 2)" by (simp add: field_simps)
  have "mean (map (\<lambda>x. (x - mean [a, b])\<^sup>2) [a, b]) = ((a - b) / 2)\<^sup>2"
    unfolding m by (simp add: mean_def d1 d2)
  then have "std_dev [a, b] = sqrt (((a - b) / 2)\<^sup>2)" by (simp add: std_dev_def)
  then show ?thesis by simp
qed

lemma pair_seps:
  "sphDist (Fin 0) (Fin 0) (Fin (11 * pi / 21600)) (Fin 0) = Fin (11 * pi / 21600)"
  "sphDist (Fin 0) (Fin 0) (Fin (7 * pi / 14400)) (Fin 0) = Fin (7 * pi / 14400)"
proof -
  have a: "\<bar>0 - 11 * pi / 21600\<bar> = 11 * pi / 21600" "\<bar>0 - 7 * pi / 14400\<bar> = 7 * pi / 14400"
    using pi_gt_zero by (simp_all add: abs_if)
  have b: "11 * pi / 21600 \<le> pi" "7 * pi / 14400 \<le> pi" using pi_gt_zero by simp_all
  show "sphDist (Fin 0) (Fin 0) (Fin (11 * pi / 21600)) (Fin 0) = Fin (11 * pi / 21600)"
    using sphDist_equator [of 0 "11 * pi / 21600"] a b by simp
  show "sphDist (Fin 0) (Fin 0) (Fin (7 * pi / 14400)) (Fin 0) = Fin (7 * pi / 14400)"
    using sphDist_equator [of 0 "7 * pi / 14400"] a b by simp
qed

lemma pair_shared:
  "shared_distances starP starQ = [pi / 2160, 11 * pi / 21600]"
  "shared_distances starP starP = [0, 0]"
  by (simp_all add: shared_distances_def starP_def starQ_def upt_conv_Cons
      example_seps pair_seps)


lemma pairRmsDist_shared:
  "shared_distances g1 g2 \<noteq> [] \<Longrightarrow>
   pairRmsDist g1 g2 = Inr (Some (Fin (std_dev (shared_distances g1 g2))))"
  using pairRmsDist_Fin [OF matchVisit_shared, of g1 g2] by simp
section \<open>Theorems: the samples of calcAMx\<close>


lemma median_pair_same: "median [x, x] = x"
  by (simp add: median_def)

lemma two_objects_in_range:
  "groupViewInMagRange (Fin 17.0, Fin 21.5) [starP, starQ] = [starP, starQ]"
  by (simp add: groupViewInMagRange_def magInRange_Fin starP_def starQ_def median_pair_same)

lemma two_objects_objectsInAnnulus:
  "objectsInAnnulus (Fin (pi / 2700), Fin (pi / 1800))
     [Fin 0, Fin (7 * pi / 14400)] [Fin 0, Fin 0] 0 = [0]"
  "objectsInAnnulus (Fin (pi / 2700), Fin (pi / 1800))
     [Fin 0, Fin (7 * pi / 14400)] [Fin 0, Fin 0] (Suc 0) = []"
  using pi_gt_zero by (simp_all add: objectsInAnnulus_def pair_seps upt_conv_Cons)

text \<open>
  Line 498 tests the mean positions after \<open>obj1\<close>, so an index of
  \<open>objectsInAnnulus\<close> counts from \<open>obj1 + 1\<close>, and line 501 reads the lists at that
  index as it is. With the two objects P and Q, whose mean positions are 5.25 arc
  minutes apart, the index 0 selected for P stands for Q, but the distances are taken
  between P and the group at index 0, P itself: the result holds the single sample 0,
  and the scatter of the pair P and Q, 15000 milliarcseconds, is absent.
\<close>

lemma calcAMx_two_objects_example:
  "calcAMx averageEquator [starP, starQ] (Fin 5) (Fin 2) None =
     Inr \<lparr>AMx = [Fin 0], D = Fin 5, annulus = (Fin 4, Fin 6),
          magRange = (Fin 17.0, Fin 21.5)\<rparr>"
proof -
  have ra: "aggregate (averageRaFromCat averageEquator) [starP, starQ] =
    Inr [Fin 0, Fin (7 * pi / 14400)]"
    by (simp add: averageRaFromCat_eq averageEquator_def starP_def starQ_def
        np_mean_def np_sum_def)
  have dec: "aggregate (averageDecFromCat averageEquator) [starP, starQ] =
    Inr [Fin 0, Fin 0]"
    by (simp add: averageDecFromCat_eq averageEquator_def starP_def starQ_def
        np_mean_def np_sum_def)
  have self: "pairRmsDist starP starP = Inr (Some (Fin 0))"
    using pairRmsDist_shared [of starP starP] by (simp add: pair_shared std_dev_pair)
  have loop: "objectLoop [starP, starQ] (Fin (pi / 2700), Fin (pi / 1800))
      [Fin 0, Fin (7 * pi / 14400)] [Fin 0, Fin 0] [0, 1] [] = Inr [Fin 0]"
    by (simp add: two_objects_objectsInAnnulus self)
  have idx: "[0..<min (length [Fin 0, Fin (7 * pi / 14400)])
      (min (length [Fin 0, Fin 0]) (length [starP, starQ]))] = [0, 1]"
    by (simp add: upt_conv_Cons)
  show ?thesis
    unfolding calcAMx_def option.case Let_def two_objects_in_range ra dec ebind_Inr
      example_annulus idx loop
    by (simp add: radiansToMilliarcsec_Fin annulusOf_Fin)
qed



section \<open>Theorems: data identifiers\<close>

lemma length_concat_map_const:
  "length (concat (map (\<lambda>v. map (f v) cs) vs)) = length vs * length cs"
  by (induction vs) simp_all

lemma nth_concat_map_const:
  "i < length vs \<Longrightarrow> j < length cs \<Longrightarrow>
   concat (map (\<lambda>v. map (f v) cs) vs) ! (i * length cs + j) = f (vs ! i) (cs ! j)"
proof (induction vs arbitrary: i)
  case Nil
  then show ?case by simp
next
  case (Cons v vs)
  show ?case
  proof (cases i)
    case 0
    with Cons.prems show ?thesis by (simp add: nth_append)
  next
    case (Suc i')
    with Cons.prems have "i' < length vs" by simp
    from Cons.IH [OF this Cons.prems(2)] Suc show ?thesis
      by (simp add: nth_append)
  qed
qed

text \<open>
  C9. For every filter string, visit list and detector list, \<open>constructDataIds\<close> returns
  exactly \<open>len(visits) * len(ccds)\<close> dictionaries, one per (visit, detector) combination
  in visit-major order, each the dictionary \<open>{'visit': v, 'filter': f, ccdKeyName: c}\<close>;
  and \<open>constructDataIds('r', [100, 200], [10, 11])\<close> is the four combinations, each with
  filter \<open>'r'\<close>.
\<close>

theorem constructDataIds_combinations:
  "length (constructDataIds f V C kn) = length V * length C \<and>
   (\<forall>i < length V. \<forall>j < length C.
      constructDataIds f V C kn ! (i * length C + j) =
        [''visit'' \<mapsto> PyInt (V ! i), ''filter'' \<mapsto> PyStr f,
         (case kn of None \<Rightarrow> ''ccd'' | Some name \<Rightarrow> name) \<mapsto> PyInt (C ! j)]) \<and>
   constructDataIds ''r'' [100, 200] [10, 11] None =
     [[''visit'' \<mapsto> PyInt 100, ''filter'' \<mapsto> PyStr ''r'', ''ccd'' \<mapsto> PyInt 10],
      [''visit'' \<mapsto> PyInt 100, ''filter'' \<mapsto> PyStr ''r'', ''ccd'' \<mapsto> PyInt 11],
      [''visit'' \<mapsto> PyInt 200, ''filter'' \<mapsto> PyStr ''r'', ''ccd'' \<mapsto> PyInt 10],
      [''visit'' \<mapsto> PyInt 200, ''filter'' \<mapsto> PyStr ''r'', ''ccd'' \<mapsto> PyInt 11]] \<and>
   (\<forall>d \<in> set (constructDataIds ''r'' [100, 200] [10, 11] None). d ''filter'' = Some (PyStr ''r''))"
proof (intro conjI allI impI)
  show "length (constructDataIds f V C kn) = length V * length C"
    by (simp add: constructDataIds_def Let_def length_concat_map_const)
next
  fix i j assume "i < length V" "j < length C"
  then show "constructDataIds f V C kn ! (i * length C + j) =
        [''visit'' \<mapsto> PyInt (V ! i), ''filter'' \<mapsto> PyStr f,
         (case kn of None \<Rightarrow> ''ccd'' | Some name \<Rightarrow> name) \<mapsto> PyInt (C ! j)]"
    by (simp add: constructDataIds_def Let_def nth_concat_map_const dataIdOf_def)
next
  show "constructDataIds ''r'' [100, 200] [10, 11] None =
     [[''visit'' \<mapsto> PyInt 100, ''filter'' \<mapsto> PyStr ''r'', ''ccd'' \<mapsto> PyInt 10],
      [''visit'' \<mapsto> PyInt 100, ''filter'' \<mapsto> PyStr ''r'', ''ccd'' \<mapsto> PyInt 11],
      [''visit'' \<mapsto> PyInt 200, ''filter'' \<mapsto> PyStr ''r'', ''ccd'' \<mapsto> PyInt 10],
      [''visit'' \<mapsto> PyInt 200, ''filter'' \<mapsto> PyStr ''r'', ''ccd'' \<mapsto> PyInt 11]]"
    by (simp add: constructDataIds_def Let_def dataIdOf_def)
next
  show "\<forall>d \<in> set (constructDataIds ''r'' [100, 200] [10, 11] None). d ''filter'' = Some (PyStr ''r'')"
    by (simp add: constructDataIds_def Let_def dataIdOf_def)
qed

theorem constructDataIds_combinations_witness:
  "(1::nat) < length [100, 200 :: int] \<and> (0::nat) < length [10, 11 :: int] \<and>
   length (constructDataIds ''i'' [100, 200] [10, 11] (Some ''ccdnum'')) = 4 \<and>
   constructDataIds ''i'' [100, 200] [10, 11] (Some ''ccdnum'') ! 2 =
     [''visit'' \<mapsto> PyInt 200, ''filter'' \<mapsto> PyStr ''i'', ''ccdnum'' \<mapsto> PyInt 10]"
proof -
  have a: "(1::nat) < length [100, 200 :: int]" and b: "(0::nat) < length [10, 11 :: int]"
    by simp_all
  from constructDataIds_combinations [of "''i''" "[100, 200]" "[10, 11]" "Some ''ccdnum''"]
  have len: "length (constructDataIds ''i'' [100, 200] [10, 11] (Some ''ccdnum'')) = 4"
    and el: "\<forall>i < length [100, 200 :: int]. \<forall>j < length [10, 11 :: int].
      constructDataIds ''i'' [100, 200] [10, 11] (Some ''ccdnum'') ! (i * length [10, 11 :: int] + j) =
        [''visit'' \<mapsto> PyInt ([100, 200] ! i), ''filter'' \<mapsto> PyStr ''i'',
         ''ccdnum'' \<mapsto> PyInt ([10, 11] ! j)]"
    by simp_all
  from el a b have
    "constructDataIds ''i'' [100, 200] [10, 11] (Some ''ccdnum'') ! (1 * length [10, 11 :: int] + 0) =
        [''visit'' \<mapsto> PyInt ([100, 200] ! 1), ''filter'' \<mapsto> PyStr ''i'',
         ''ccdnum'' \<mapsto> PyInt ([10, 11] ! 0)]"
    by blast
  then have "constructDataIds ''i'' [100, 200] [10, 11] (Some ''ccdnum'') ! 2 =
     [''visit'' \<mapsto> PyInt 200, ''filter'' \<mapsto> PyStr ''i'', ''ccdnum'' \<mapsto> PyInt 10]"
    by (simp add: numeral_2_eq_2)
  with a b len show ?thesis by simp
qed

end
